theory Spec2Isabelle
  imports Complex_Main "HOL-Library.Word" "HOL-Library.Sublist"
begin

section \<open>Strings as the Go code reads them\<close>

text \<open>
  A Go \<^verbatim>\<open>string\<close> is a sequence of bytes; \<^typ>\<open>string\<close> is a list of 8-bit
  characters, so \<^term>\<open>length\<close> is Go's \<^verbatim>\<open>len\<close> and the \<open>i\<close>-th element is
  \<^verbatim>\<open>s[i]\<close>. \<^verbatim>\<open>strings.Contains\<close>, \<^verbatim>\<open>strings.HasPrefix\<close> and \<^verbatim>\<open>strings.Split\<close> compare
  bytes. \<^verbatim>\<open>strings.ToLower\<close> and \<^verbatim>\<open>strings.TrimSpace\<close> read the string as UTF-8, one
  code point (a \<^verbatim>\<open>rune\<close>) at a time, and are modelled so.
\<close>

type_synonym rune = nat

definition byte :: "char \<Rightarrow> nat" where
  "byte c = of_char c"

subsection \<open>UTF-8 (package unicode/utf8)\<close>

definition RuneError :: rune where
  "RuneError = 0xFFFD"

text \<open>
  For a leading byte \<open>0xC2\<close>..\<open>0xF4\<close>: the length of the sequence it starts and the
  range accepted for the second byte (the tables \<^verbatim>\<open>first\<close> and \<^verbatim>\<open>acceptRanges\<close>).
\<close>

definition rune_size :: "nat \<Rightarrow> nat" where
  "rune_size s0 = (if s0 < 0xE0 then 2 else if s0 < 0xF0 then 3 else 4)"

definition accept_lo :: "nat \<Rightarrow> nat" where
  "accept_lo s0 = (if s0 = 0xE0 then 0xA0 else if s0 = 0xF0 then 0x90 else 0x80)"

definition accept_hi :: "nat \<Rightarrow> nat" where
  "accept_hi s0 = (if s0 = 0xED then 0x9F else if s0 = 0xF4 then 0x8F else 0xBF)"

text \<open>
  \<^verbatim>\<open>utf8.DecodeRuneInString\<close>: the first code point of the string and its width in
  bytes. A byte that starts no valid sequence (a stray continuation byte, an overlong or
  truncated sequence, a surrogate) is \<^verbatim>\<open>RuneError\<close> of width 1.
\<close>

definition decode_first :: "string \<Rightarrow> rune \<times> nat" where
  "decode_first s =
     (if length s < 1 then (RuneError, 0)
      else if byte (s ! 0) < 0x80 then (byte (s ! 0), 1)
      else if byte (s ! 0) < 0xC2 \<or> 0xF4 < byte (s ! 0) then (RuneError, 1)
      else if length s < rune_size (byte (s ! 0)) then (RuneError, 1)
      else if byte (s ! 1) < accept_lo (byte (s ! 0)) \<or> accept_hi (byte (s ! 0)) < byte (s ! 1)
        then (RuneError, 1)
      else if rune_size (byte (s ! 0)) \<le> 2 then
        ((byte (s ! 0) mod 32) * 64 + byte (s ! 1) mod 64, 2)
      else if byte (s ! 2) < 0x80 \<or> 0xBF < byte (s ! 2) then (RuneError, 1)
      else if rune_size (byte (s ! 0)) \<le> 3 then
        ((byte (s ! 0) mod 16) * 4096 + (byte (s ! 1) mod 64) * 64 + byte (s ! 2) mod 64, 3)
      else if byte (s ! 3) < 0x80 \<or> 0xBF < byte (s ! 3) then (RuneError, 1)
      else
        ((byte (s ! 0) mod 8) * 262144 + (byte (s ! 1) mod 64) * 4096
           + (byte (s ! 2) mod 64) * 64 + byte (s ! 3) mod 64, 4))"

text \<open>
  The loop \<^verbatim>\<open>for _, r := range s\<close>: the code points of the string in order, each with
  the bytes it was read from.
\<close>

function decode :: "string \<Rightarrow> (rune \<times> string) list" where
  "decode s =
     (if s = [] then []
      else (let (r, width) = decode_first s in (r, take width s) # decode (drop width s)))"
  by pat_completeness auto
termination
proof (relation "measure length")
  show "wf (measure length)" by simp
next
  fix s :: string and x r width
  assume "s \<noteq> []" "x = decode_first s" "(r, width) = x"
  have "1 \<le> snd (decode_first s)"
    using \<open>s \<noteq> []\<close> by (auto simp: decode_first_def)
  then have "1 \<le> width"
    using \<open>x = decode_first s\<close> \<open>(r, width) = x\<close> by (metis snd_conv)
  then show "(drop width s, s) \<in> measure length"
    using \<open>s \<noteq> []\<close> by simp
qed

declare decode.simps [simp del]

text \<open>
  \<^verbatim>\<open>utf8.AppendRune\<close>, which \<^verbatim>\<open>strings.Builder.WriteRune\<close> calls: the UTF-8 bytes of a
  code point; a surrogate or a value past \<open>0x10FFFF\<close> is written as \<^verbatim>\<open>RuneError\<close>.
\<close>

definition encode_rune :: "rune \<Rightarrow> string" where
  "encode_rune r =
     (if r \<le> 0x7F then [char_of r]
      else if r \<le> 0x7FF then [char_of (0xC0 + r div 64), char_of (0x80 + r mod 64)]
      else if 0x10FFFF < r \<or> (0xD800 \<le> r \<and> r \<le> 0xDFFF) then
        [CHR 0xEF, CHR 0xBF, CHR 0xBD]
      else if r \<le> 0xFFFF then
        [char_of (0xE0 + r div 4096), char_of (0x80 + (r div 64) mod 64),
         char_of (0x80 + r mod 64)]
      else
        [char_of (0xF0 + r div 262144), char_of (0x80 + (r div 4096) mod 64),
         char_of (0x80 + (r div 64) mod 64), char_of (0x80 + r mod 64)])"

subsection \<open>Case and white space (package unicode)\<close>

text \<open>
  \<^verbatim>\<open>unicode.ToLower\<close> answers for ASCII itself and looks every other code point up in
  the table \<^verbatim>\<open>unicode.CaseRanges\<close>. That table belongs to the standard library; the
  lookup in it is the argument \<open>U\<close>, and whatever is proved below holds for every
  such table.
\<close>

type_synonym case_table = "rune \<Rightarrow> rune"

definition unicode_ToLower :: "case_table \<Rightarrow> rune \<Rightarrow> rune" where
  "unicode_ToLower U r =
     (if r \<le> 0x7F then (if 0x41 \<le> r \<and> r \<le> 0x5A then r + 32 else r) else U r)"

text \<open>
  \<^verbatim>\<open>unicode.IsSpace\<close>: the listed code points in Latin-1, the property
  \<^verbatim>\<open>White_Space\<close> beyond it.
\<close>

definition unicode_IsSpace :: "rune \<Rightarrow> bool" where
  "unicode_IsSpace r =
     (if r \<le> 0xFF then
        (r = 0x09 \<or> r = 0x0A \<or> r = 0x0B \<or> r = 0x0C \<or> r = 0x0D \<or> r = 0x20 \<or>
         r = 0x85 \<or> r = 0xA0)
      else
        (r = 0x1680 \<or> (0x2000 \<le> r \<and> r \<le> 0x200A) \<or> r = 0x2028 \<or> r = 0x2029 \<or>
         r = 0x202F \<or> r = 0x205F \<or> r = 0x3000))"

subsection \<open>Package strings\<close>

text \<open>
  \<^verbatim>\<open>strings.ToLower\<close> is \<^verbatim>\<open>strings.Map(unicode.ToLower, s)\<close>: every code point of the
  string is replaced by the UTF-8 bytes of its lower case, an invalid byte by the bytes
  of what \<^verbatim>\<open>RuneError\<close> maps to. (The shortcuts of the library for ASCII-only and for
  unchanged strings return the same bytes.)
\<close>

definition lower_bytes :: "case_table \<Rightarrow> rune \<times> string \<Rightarrow> string" where
  "lower_bytes U p = encode_rune (unicode_ToLower U (fst p))"

definition strings_ToLower :: "case_table \<Rightarrow> string \<Rightarrow> string" where
  "strings_ToLower U s = concat (map (lower_bytes U) (decode s))"

text \<open>
  \<^verbatim>\<open>strings.TrimSpace\<close>: the string without its leading and trailing code points that
  are white space.
\<close>

definition is_space_rune :: "rune \<times> string \<Rightarrow> bool" where
  "is_space_rune p = unicode_IsSpace (fst p)"

definition strings_TrimSpace :: "string \<Rightarrow> string" where
  "strings_TrimSpace s =
     concat (map snd (rev (dropWhile is_space_rune (rev (dropWhile is_space_rune (decode s))))))"

fun strings_HasPrefix :: "string \<Rightarrow> string \<Rightarrow> bool" where
  "strings_HasPrefix s [] = True"
| "strings_HasPrefix [] (p # ps) = False"
| "strings_HasPrefix (c # cs) (p # ps) = (c = p \<and> strings_HasPrefix cs ps)"

fun strings_Contains :: "string \<Rightarrow> string \<Rightarrow> bool" where
  "strings_Contains [] sub = (sub = [])"
| "strings_Contains (c # cs) sub = (strings_HasPrefix (c # cs) sub \<or> strings_Contains cs sub)"

text \<open>
  \<^verbatim>\<open>strings.Split(text, "\n")\<close>: the pieces between line feeds; a text with no line
  feed is one piece, the empty text is one empty piece. The second argument is the piece
  being read, kept reversed.
\<close>

fun split_from :: "string \<Rightarrow> string \<Rightarrow> string list" where
  "split_from [] cur = [rev cur]"
| "split_from (c # cs) cur =
     (if c = CHR 0x0A then rev cur # split_from cs [] else split_from cs (c # cur))"

definition strings_Split_nl :: "string \<Rightarrow> string list" where
  "strings_Split_nl text = split_from text []"

section \<open>Response extraction (internal/ai/advanced\_client.go)\<close>

subsection \<open>parseRiskScore\<close>

text \<open>
  Go's \<^verbatim>\<open>int\<close> is 64 bits wide on the platforms the tool is built for; \<^verbatim>\<open>score\<close> is a
  \<^typ>\<open>64 word\<close> read as two's complement, so \<^verbatim>\<open>score*10 + d\<close> wraps as it does there.
\<close>

type_synonym go_int = "64 word"

definition is_digit :: "char \<Rightarrow> bool" where
  "is_digit c = (48 \<le> (of_char c :: nat) \<and> (of_char c :: nat) \<le> 57)"

definition digit_val :: "char \<Rightarrow> go_int" where
  "digit_val c = of_nat ((of_char c :: nat) - 48)"

text \<open>
  The inner loop \<^verbatim>\<open>for j := i; j < len(line) && line[j] is a digit; j++\<close>, on the suffix
  of the line that starts at \<open>i\<close>.
\<close>

fun digit_run :: "go_int \<Rightarrow> string \<Rightarrow> go_int" where
  "digit_run score [] = score"
| "digit_run score (c # cs) =
     (if is_digit c then digit_run (score * 10 + digit_val c) cs else score)"

definition score_in_range :: "go_int \<Rightarrow> bool" where
  "score_in_range score = (0 \<le> sint score \<and> sint score \<le> 100)"

text \<open>
  The loop \<^verbatim>\<open>for i := 0; i < len(line)-1; i++\<close>, on the suffix that starts at \<open>i\<close>:
  \<open>i < len(line)-1\<close> says that the suffix has at least two bytes. \<open>None\<close> is the loop
  running to its end without a \<^verbatim>\<open>return\<close>.
\<close>

fun scan_line :: "string \<Rightarrow> go_int option" where
  "scan_line (c # d # cs) =
     (if is_digit c then
        (let score = digit_run 0 (c # d # cs)
         in if score_in_range score then Some score else scan_line (d # cs))
      else scan_line (d # cs))"
| "scan_line [c] = None"
| "scan_line [] = None"

fun scan_lines :: "case_table \<Rightarrow> string list \<Rightarrow> go_int" where
  "scan_lines U [] = 50"
| "scan_lines U (line # rest) =
     (if strings_Contains (strings_ToLower U line) ''risk score'' then
        (case scan_line line of Some score \<Rightarrow> score | None \<Rightarrow> scan_lines U rest)
      else scan_lines U rest)"

definition parseRiskScore :: "case_table \<Rightarrow> string \<Rightarrow> go_int" where
  "parseRiskScore U text = scan_lines U (strings_Split_nl text)"

subsection \<open>parseCriticalIssues\<close>

text \<open>
  The loop over the lines, with the variables \<^verbatim>\<open>inCritical\<close> and \<^verbatim>\<open>issues\<close> as
  arguments: \<^verbatim>\<open>continue\<close> is the recursive call on the remaining lines, \<^verbatim>\<open>break\<close>
  returns what has been collected.
\<close>

fun critical_loop :: "case_table \<Rightarrow> bool \<Rightarrow> string list \<Rightarrow> string list \<Rightarrow> string list" where
  "critical_loop U inCritical issues [] = issues"
| "critical_loop U inCritical issues (line # rest) =
     (let lower = strings_ToLower U line in
      if strings_Contains lower ''critical'' then critical_loop U True issues rest
      else
        (let issues' =
           (if inCritical \<and> strings_TrimSpace line \<noteq> [] \<and>
               (strings_HasPrefix (strings_TrimSpace line) ''-'' \<or>
                strings_HasPrefix (strings_TrimSpace line) ''*'')
            then issues @ [strings_TrimSpace line] else issues)
         in if inCritical \<and> strings_Contains lower ''recommendation'' then issues'
            else critical_loop U inCritical issues' rest))"

definition parseCriticalIssues :: "case_table \<Rightarrow> string \<Rightarrow> string list" where
  "parseCriticalIssues U text = critical_loop U False [] (strings_Split_nl text)"

subsection \<open>parseAnalysisSummary and parseRecommendations\<close>

text \<open>
  \<^verbatim>\<open>for i, line := range lines\<close> with the test \<^verbatim>\<open>i+1 < len(lines)\<close>: the line has a
  successor. \<open>None\<close> is the loop ending without a \<^verbatim>\<open>return\<close>.
\<close>

fun summary_loop :: "case_table \<Rightarrow> string list \<Rightarrow> string option" where
  "summary_loop U (line # next # rest) =
     (if strings_Contains (strings_ToLower U line) ''summary'' then Some (strings_TrimSpace next)
      else summary_loop U (next # rest))"
| "summary_loop U [line] = None"
| "summary_loop U [] = None"

text \<open>
  The fallback \<^verbatim>\<open>strings.Split(text, "\n")[0]\<close> cannot be out of range: the split has
  at least one piece (lemma \<open>strings_Split_nl_nonempty\<close> below), so the empty case of
  the model is never taken.
\<close>

definition parseAnalysisSummary :: "case_table \<Rightarrow> string \<Rightarrow> string" where
  "parseAnalysisSummary U text =
     (case summary_loop U (strings_Split_nl text) of
        Some s \<Rightarrow> s
      | None \<Rightarrow> (case strings_Split_nl text of first # _ \<Rightarrow> first | [] \<Rightarrow> []))"

record Recommendation =
  Priority :: string
  Title :: string
  Description :: string
  Impact :: string
  Effort :: string
  Steps :: "string list"

fun recommendations_loop ::
  "case_table \<Rightarrow> bool \<Rightarrow> Recommendation list \<Rightarrow> string list \<Rightarrow> Recommendation list" where
  "recommendations_loop U inRecommendations recommendations [] = recommendations"
| "recommendations_loop U inRecommendations recommendations (line # rest) =
     (let lower = strings_ToLower U line in
      if strings_Contains lower ''recommendation''
      then recommendations_loop U True recommendations rest
      else
        (let trimmed = strings_TrimSpace line in
         if inRecommendations \<and> strings_TrimSpace line \<noteq> [] \<and>
            (strings_HasPrefix trimmed ''-'' \<or> strings_HasPrefix trimmed ''*'' \<or>
             strings_HasPrefix trimmed ''1'')
         then recommendations_loop U inRecommendations
                (recommendations @
                  [\<lparr>Priority = ''medium'', Title = trimmed, Description = trimmed,
                    Impact = ''unknown'', Effort = ''medium'', Steps = []\<rparr>]) rest
         else recommendations_loop U inRecommendations recommendations rest))"

definition parseRecommendations :: "case_table \<Rightarrow> string \<Rightarrow> Recommendation list" where
  "parseRecommendations U text = recommendations_loop U False [] (strings_Split_nl text)"

section \<open>Retry with backoff (internal/ai/advanced\_client.go)\<close>

subsection \<open>Error values\<close>

text \<open>
  The error values this package builds and meets. The two sentinels are the package's
  \<^verbatim>\<open>errors.New\<close> variables, each its own identity. \<open>ErrOpaque m\<close> is any other error
  value with message \<open>m\<close> that wraps nothing of this package: an error of the client
  library, of \<^verbatim>\<open>context\<close> or \<^verbatim>\<open>io\<close>, or a \<^verbatim>\<open>fmt.Errorf\<close> without \<^verbatim>\<open>%w\<close>.
  \<open>ErrWrap pre e post\<close> is \<^verbatim>\<open>fmt.Errorf(pre + "%w" + post, e)\<close>: its message is the
  format with the message of \<open>e\<close> in place of \<^verbatim>\<open>%w\<close>, and \<^verbatim>\<open>Unwrap\<close> gives \<open>e\<close>.
  The sentinels are unexported, so nothing outside the package can wrap them in a type of
  its own; the package itself wraps only with \<^verbatim>\<open>fmt.Errorf\<close>.
\<close>

datatype go_error =
    ErrEmptyResponse
  | ErrRateLimitExceeded
  | ErrOpaque string
  | ErrWrap string go_error string

fun err_Error :: "go_error \<Rightarrow> string" where
  "err_Error ErrEmptyResponse = ''empty AI response''"
| "err_Error ErrRateLimitExceeded = ''rate limit exceeded''"
| "err_Error (ErrOpaque m) = m"
| "err_Error (ErrWrap pre e post) = pre @ err_Error e @ post"

text \<open>\<^verbatim>\<open>errors.Is\<close>: the target is the error itself or is reached by unwrapping.\<close>

fun errors_Is :: "go_error \<Rightarrow> go_error \<Rightarrow> bool" where
  "errors_Is (ErrWrap pre e post) target =
     (ErrWrap pre e post = target \<or> errors_Is e target)"
| "errors_Is e target = (e = target)"

subsection \<open>isRetryableError\<close>

definition retryablePatterns :: "string list" where
  "retryablePatterns =
     [''rate limit'', ''429'', ''timeout'', ''temporary'', ''connection'', ''deadline exceeded'']"

text \<open>The loop \<^verbatim>\<open>for _, pattern := range retryablePatterns\<close> with its early return.\<close>

fun matches_any :: "string \<Rightarrow> string list \<Rightarrow> bool" where
  "matches_any message [] = False"
| "matches_any message (pattern # rest) =
     (if strings_Contains message pattern then True else matches_any message rest)"

text \<open>The argument is a Go \<^verbatim>\<open>error\<close>: \<open>None\<close> is \<^verbatim>\<open>nil\<close>.\<close>

fun isRetryableError :: "case_table \<Rightarrow> go_error option \<Rightarrow> bool" where
  "isRetryableError U None = False"
| "isRetryableError U (Some err) =
     (if errors_Is err ErrEmptyResponse then True
      else if errors_Is err ErrRateLimitExceeded then True
      else matches_any (strings_ToLower U (err_Error err)) retryablePatterns)"

text \<open>
  The specification's "contains, case-insensitively", read on code points rather than on the
  bytes the code searches: the characters of the message, each put in lower case, contain
  the characters of the pattern as a run of consecutive characters. The patterns are
  ASCII, so a byte of the pattern is its character.
\<close>

definition fold_runes :: "case_table \<Rightarrow> string \<Rightarrow> rune list" where
  "fold_runes U s = map (\<lambda>p. unicode_ToLower U (fst p)) (decode s)"

definition contains_ignoring_case :: "case_table \<Rightarrow> string \<Rightarrow> string \<Rightarrow> bool" where
  "contains_ignoring_case U message pattern =
     sublist (map byte pattern) (fold_runes U message)"

subsection \<open>retryWithBackoff\<close>

text \<open>A \<^verbatim>\<open>time.Duration\<close> is a signed 64-bit count of nanoseconds.\<close>

type_synonym duration = "64 word"

definition time_Second :: duration where
  "time_Second = 1000000000"

definition maxRetryAttempts :: nat where
  "maxRetryAttempts = 3"

definition baseRetryDelay :: duration where
  "baseRetryDelay = 15 * time_Second"

text \<open>
  What the loop meets outside itself: \<open>attempt_fn k\<close> is what the \<open>k\<close>-th call of
  \<^verbatim>\<open>fn(ctx)\<close> returns (an error, or a result with a \<^verbatim>\<open>nil\<close> error); \<open>ctx_done k\<close> is
  \<^verbatim>\<open>ctx.Err()\<close> when the context is found done at the check before attempt \<open>k\<close>;
  \<open>sleep_ctx k\<close> is the error \<^verbatim>\<open>sleepWithContext\<close> returns when the context ends
  during the backoff after attempt \<open>k\<close>, and \<open>None\<close> when the timer fires first.
\<close>

record 'a retry_env =
  attempt_fn :: "nat \<Rightarrow> go_error + 'a"
  ctx_done :: "nat \<Rightarrow> go_error option"
  sleep_ctx :: "nat \<Rightarrow> go_error option"

text \<open>
  What the loop does, in order: a call of \<^verbatim>\<open>fn\<close>, the retry notice it prints
  (attempt number, ceiling, delay, error) and the backoff it then sleeps.
\<close>

datatype retry_event =
    Attempt nat
  | RetryNotice nat nat duration go_error
  | Sleep duration

definition sleepWithContext :: "'a retry_env \<Rightarrow> nat \<Rightarrow> duration \<Rightarrow> go_error option" where
  "sleepWithContext env attempt delay = sleep_ctx env attempt"

text \<open>
  The loop \<^verbatim>\<open>for attempt := 0; attempt < maxRetryAttempts; attempt++\<close> with
  \<^verbatim>\<open>lastErr\<close> (\<open>None\<close> is \<^verbatim>\<open>nil\<close>) and the events so far as arguments. After the
  loop, \<^verbatim>\<open>fmt.Errorf("max retries exceeded: %w", lastErr)\<close>; with a \<^verbatim>\<open>nil\<close>
  \<^verbatim>\<open>lastErr\<close> the verb prints \<^verbatim>\<open>%!w(<nil>)\<close> and wraps nothing.
\<close>

function retry_loop ::
  "case_table \<Rightarrow> 'a retry_env \<Rightarrow> nat \<Rightarrow> go_error option \<Rightarrow> retry_event list
     \<Rightarrow> (go_error + 'a) \<times> retry_event list" where
  "retry_loop U env attempt lastErr trace =
     (if attempt < maxRetryAttempts then
        (case ctx_done env attempt of
           Some cerr \<Rightarrow> (Inl cerr, trace)
         | None \<Rightarrow>
            (case attempt_fn env attempt of
               Inr result \<Rightarrow> (Inr result, trace @ [Attempt attempt])
             | Inl err \<Rightarrow>
                (if \<not> isRetryableError U (Some err) then (Inl err, trace @ [Attempt attempt])
                 else if attempt + 1 < maxRetryAttempts then
                   (let delay = baseRetryDelay * of_nat (attempt + 1);
                        trace' = trace @ [Attempt attempt,
                                   RetryNotice (attempt + 1) maxRetryAttempts delay err,
                                   Sleep delay]
                    in case sleepWithContext env attempt delay of
                         Some serr \<Rightarrow> (Inl serr, trace')
                       | None \<Rightarrow> retry_loop U env (attempt + 1) (Some err) trace')
                 else retry_loop U env (attempt + 1) (Some err) (trace @ [Attempt attempt]))))
      else
        (case lastErr of
           Some e \<Rightarrow> (Inl (ErrWrap ''max retries exceeded: '' e []), trace)
         | None \<Rightarrow> (Inl (ErrOpaque ''max retries exceeded: %!w(<nil>)''), trace)))"
  by pat_completeness auto
termination
  by (relation "measure (\<lambda>(U, env, attempt, lastErr, trace). maxRetryAttempts - attempt)") auto

declare retry_loop.simps [simp del]

definition retryWithBackoff :: "case_table \<Rightarrow> 'a retry_env \<Rightarrow> (go_error + 'a) \<times> retry_event list" where
  "retryWithBackoff U env = retry_loop U env 0 None []"



section \<open>Permission manager (internal/scanner/permission\_manager.go)\<close>

text \<open>
  The manager's fields; \<^verbatim>\<open>userApproved\<close> is the Go map from cache key to decision.
\<close>

record PermissionManager =
  sudoAvailable :: bool
  sudoTested :: bool
  userApproved :: "string \<rightharpoonup> bool"

definition NewPermissionManager :: PermissionManager where
  "NewPermissionManager =
     \<lparr>sudoAvailable = False, sudoTested = False, userApproved = Map.empty\<rparr>"

text \<open>
  What the manager meets outside itself. \<open>stdin_reads\<close> lists what the successive calls
  of \<^verbatim>\<open>reader.ReadString('\n')\<close> on standard input return, in order (a line with its
  line feed, or an error); when none is left the read fails with \<^verbatim>\<open>io.EOF\<close>.
  \<open>stdout\<close> collects what is printed, one entry per print call. \<open>lookpath_sudo\<close> says
  whether \<^verbatim>\<open>exec.LookPath("sudo")\<close> succeeds, \<open>sudo_n_true\<close> whether
  \<^verbatim>\<open>sudo -n true\<close> exits without error.
\<close>

record os_world =
  stdin_reads :: "(go_error + string) list"
  stdout :: "string list"
  lookpath_sudo :: bool
  sudo_n_true :: bool

definition fmt_Print :: "os_world \<Rightarrow> string \<Rightarrow> os_world" where
  "fmt_Print w s = w\<lparr>stdout := stdout w @ [s]\<rparr>"

definition fmt_Println :: "os_world \<Rightarrow> string \<Rightarrow> os_world" where
  "fmt_Println w s = w\<lparr>stdout := stdout w @ [s @ [CHR 0x0A]]\<rparr>"

definition ReadString_nl :: "os_world \<Rightarrow> (go_error + string) \<times> os_world" where
  "ReadString_nl w =
     (case stdin_reads w of
        [] \<Rightarrow> (Inl (ErrOpaque ''EOF''), w)
      | r # rest \<Rightarrow> (r, w\<lparr>stdin_reads := rest\<rparr>))"

definition CheckSudoAvailable ::
  "PermissionManager \<Rightarrow> os_world \<Rightarrow> bool \<times> PermissionManager" where
  "CheckSudoAvailable pm w =
     (if sudoTested pm then (sudoAvailable pm, pm)
      else if \<not> lookpath_sudo w then
        (False, pm\<lparr>sudoAvailable := False, sudoTested := True\<rparr>)
      else (sudo_n_true w, pm\<lparr>sudoAvailable := sudo_n_true w, sudoTested := True\<rparr>))"

definition cacheKey :: "string \<Rightarrow> string \<Rightarrow> string" where
  "cacheKey tool command = tool @ '':'' @ command"

definition wildcardKey :: "string \<Rightarrow> string" where
  "wildcardKey tool = tool @ '':*''"

definition banner_rule :: string where
  "banner_rule = concat (replicate 44 [CHR 0xE2, CHR 0x94, CHR 0x81])"

definition print_request :: "os_world \<Rightarrow> string \<Rightarrow> string \<Rightarrow> string \<Rightarrow> os_world" where
  "print_request w tool purpose command =
     (let w1 = fmt_Println w ([CHR 0x0A, CHR 0xF0, CHR 0x9F, CHR 0x94, CHR 0x90] @ '' Root Permission Request'');
          w2 = fmt_Println w1 banner_rule;
          w3 = fmt_Print w2 ([CHR 0x0A, CHR 0xF0, CHR 0x9F, CHR 0x93, CHR 0x8B] @ '' Tool: '' @ tool @ [CHR 0x0A]);
          w4 = fmt_Print w3 ([CHR 0xF0, CHR 0x9F, CHR 0x8E, CHR 0xAF] @ '' Purpose: '' @ purpose @ [CHR 0x0A])
      in fmt_Print w4 ([CHR 0xF0, CHR 0x9F, CHR 0x92, CHR 0xBB] @ '' Command: '' @ command @ [CHR 0x0A]))"

definition print_sudo_unavailable :: "os_world \<Rightarrow> os_world" where
  "print_sudo_unavailable w =
     (let w1 = fmt_Println w ([CHR 0x0A, CHR 0xE2, CHR 0x9A, CHR 0xA0, CHR 0xEF, CHR 0xB8, CHR 0x8F] @ ''  sudo is not available or not configured'');
          w2 = fmt_Println w1 ([CHR 0xF0, CHR 0x9F, CHR 0x92, CHR 0xA1] @ '' Options:'');
          w3 = fmt_Println w2 (''   1. Configure sudo access'');
          w4 = fmt_Println w3 (''   2. Run Shadow as root (not recommended)'')
      in fmt_Println w4 (''   3. Skip this scan and use alternatives''))"

definition print_question :: "os_world \<Rightarrow> os_world" where
  "print_question w =
     (let w1 = fmt_Println w ([CHR 0x0A, CHR 0xE2, CHR 0x9A, CHR 0xA0, CHR 0xEF, CHR 0xB8, CHR 0x8F] @ ''  This command requires elevated privileges (root/sudo)'');
          w2 = fmt_Println w1 ([CHR 0xF0, CHR 0x9F, CHR 0x94, CHR 0x92] @ '' Shadow will ONLY run the specific command shown above'');
          w3 = fmt_Println w2 ([CHR 0xF0, CHR 0x9F, CHR 0x93, CHR 0x8A] @ '' This is needed for comprehensive security scanning'')
      in fmt_Print w3 ([CHR 0x0A] @ ''Allow this command? (yes/no/always): ''))"

definition invalid_response_notice :: string where
  "invalid_response_notice = [CHR 0xE2, CHR 0x9A, CHR 0xA0, CHR 0xEF, CHR 0xB8, CHR 0x8F] @ ''  Invalid response, treating as '' @ [CHR 0x27] @ ''no'' @ [CHR 0x27]"

text \<open>
  The result is the pair the Go function returns (the decision and the error, \<open>None\<close>
  for \<^verbatim>\<open>nil\<close>), with the manager and the world after the call.
\<close>

definition RequestRootPermission ::
  "case_table \<Rightarrow> PermissionManager \<Rightarrow> os_world \<Rightarrow> string \<Rightarrow> string \<Rightarrow> string
     \<Rightarrow> (bool \<times> go_error option) \<times> PermissionManager \<times> os_world" where
  "RequestRootPermission U pm w tool purpose command =
     (case userApproved pm (cacheKey tool command) of
        Some approved \<Rightarrow> ((approved, None), pm, w)
      | None \<Rightarrow>
         (let w1 = print_request w tool purpose command;
              (available, pm1) = CheckSudoAvailable pm w1
          in if \<not> available then
               ((False, Some (ErrOpaque ''sudo not available'')), pm1, print_sudo_unavailable w1)
             else
               (let w2 = print_question w1;
                    (read, w3) = ReadString_nl w2
                in case read of
                     Inl err \<Rightarrow> ((False, Some err), pm1, w3)
                   | Inr line \<Rightarrow>
                      (let response = strings_ToLower U (strings_TrimSpace line) in
                       if response = ''yes'' \<or> response = ''y'' then
                         ((True, None),
                          pm1\<lparr>userApproved := (userApproved pm1)(cacheKey tool command \<mapsto> True)\<rparr>,
                          w3)
                       else if response = ''always'' \<or> response = ''a'' then
                         ((True, None),
                          pm1\<lparr>userApproved :=
                                (userApproved pm1)(wildcardKey tool \<mapsto> True,
                                                   cacheKey tool command \<mapsto> True)\<rparr>,
                          w3)
                       else if response = ''no'' \<or> response = ''n'' then
                         ((False, None),
                          pm1\<lparr>userApproved := (userApproved pm1)(cacheKey tool command \<mapsto> False)\<rparr>,
                          w3)
                       else
                         ((False, None),
                          pm1\<lparr>userApproved := (userApproved pm1)(cacheKey tool command \<mapsto> False)\<rparr>,
                          fmt_Println w3 invalid_response_notice)))))"

section \<open>Usage tracking (internal/ai/usage\_tracker.go)\<close>

text \<open>
  Costs are \<^verbatim>\<open>float64\<close>. The model leaves the arithmetic of \<^verbatim>\<open>float64\<close> open: the
  type \<open>'f\<close> of the values and the operations the code applies to them are arguments,
  so what is proved holds for IEEE 754 doubles as for any other reading of them.
  \<open>f_lit q\<close> is the value of the literal written \<open>q\<close> in the source, \<open>f_of_int64\<close>
  is the conversion \<^verbatim>\<open>float64(n)\<close> of an \<^verbatim>\<open>int64\<close>.
\<close>

record 'f float_ops =
  f_add :: "'f \<Rightarrow> 'f \<Rightarrow> 'f"
  f_mul :: "'f \<Rightarrow> 'f \<Rightarrow> 'f"
  f_div :: "'f \<Rightarrow> 'f \<Rightarrow> 'f"
  f_of_int64 :: "64 word \<Rightarrow> 'f"
  f_lit :: "rat \<Rightarrow> 'f"

text \<open>The same operations computed exactly, on the rationals.\<close>

definition exact_ops :: "rat float_ops" where
  "exact_ops =
     \<lparr>f_add = (\<lambda>a b. a + b), f_mul = (\<lambda>a b. a * b), f_div = (\<lambda>a b. a / b),
      f_of_int64 = (\<lambda>n. of_int (sint n)), f_lit = (\<lambda>q. q)\<rparr>"

record 'f ModelPricing =
  InputCostPerMToken :: 'f
  OutputCostPerMToken :: 'f

definition modelPricing :: "'f float_ops \<Rightarrow> string \<rightharpoonup> 'f ModelPricing" where
  "modelPricing ops model =
     (if model = ''claude-opus-4.6'' then
        Some \<lparr>InputCostPerMToken = f_lit ops 15, OutputCostPerMToken = f_lit ops 75\<rparr>
      else if model = ''claude-sonnet-4.5'' then
        Some \<lparr>InputCostPerMToken = f_lit ops 3, OutputCostPerMToken = f_lit ops 15\<rparr>
      else if model = ''claude-sonnet-4.5-20250929'' then
        Some \<lparr>InputCostPerMToken = f_lit ops 3, OutputCostPerMToken = f_lit ops 15\<rparr>
      else if model = ''claude-haiku-4.5'' then
        Some \<lparr>InputCostPerMToken = f_lit ops (8 / 10), OutputCostPerMToken = f_lit ops 4\<rparr>
      else None)"

text \<open>
  \<^verbatim>\<open>time.Time\<close> values are only stored and copied here; an instant is an integer
  (nanoseconds since some epoch).
\<close>

type_synonym go_time = int

record UsageStats =
  Model :: string
  Agent :: string
  InputTokens :: "64 word"
  OutputTokens :: "64 word"
  Duration :: duration
  StartTime :: go_time
  EndTime :: go_time
  Success :: bool
  Error :: string

definition CalculateCost :: "'f float_ops \<Rightarrow> UsageStats \<Rightarrow> 'f" where
  "CalculateCost ops u =
     (case modelPricing ops (Model u) of
        None \<Rightarrow> f_lit ops 0
      | Some pricing \<Rightarrow>
         (let inputCost =
                f_mul ops (f_div ops (f_of_int64 ops (InputTokens u)) (f_lit ops 1000000))
                  (InputCostPerMToken pricing);
              outputCost =
                f_mul ops (f_div ops (f_of_int64 ops (OutputTokens u)) (f_lit ops 1000000))
                  (OutputCostPerMToken pricing)
          in f_add ops inputCost outputCost))"

text \<open>The tracker is its slice of records; the mutex has no sequential meaning.\<close>

record UsageTracker =
  usages :: "UsageStats list"

definition NewUsageTracker :: UsageTracker where
  "NewUsageTracker = \<lparr>usages = []\<rparr>"

definition RecordUsage :: "UsageTracker \<Rightarrow> UsageStats \<Rightarrow> UsageTracker" where
  "RecordUsage t stats = t\<lparr>usages := usages t @ [stats]\<rparr>"

text \<open>
  The operation counters are Go \<^verbatim>\<open>int\<close>s that count elements of one slice, whose length
  is itself an \<^verbatim>\<open>int\<close>: they cannot overflow and are integers here. The token and
  duration sums are \<^verbatim>\<open>int64\<close> and wrap.
\<close>

record 'f AgentSummary =
  as_Agent :: string
  as_Model :: string
  as_InputTokens :: "64 word"
  as_OutputTokens :: "64 word"
  as_Cost :: 'f
  as_Duration :: duration
  as_Operations :: int
  as_Successes :: int

record 'f ModelSummary =
  ms_Model :: string
  ms_InputTokens :: "64 word"
  ms_OutputTokens :: "64 word"
  ms_Cost :: 'f
  ms_Operations :: int

record 'f UsageSummary =
  TotalInputTokens :: "64 word"
  TotalOutputTokens :: "64 word"
  TotalCost :: 'f
  TotalDuration :: duration
  TotalOperations :: int
  SuccessfulOperations :: int
  ByAgent :: "string \<rightharpoonup> 'f AgentSummary"
  ByModel :: "string \<rightharpoonup> 'f ModelSummary"

text \<open>The zero values a Go map read gives for a missing key.\<close>

definition zero_AgentSummary :: "'f float_ops \<Rightarrow> 'f AgentSummary" where
  "zero_AgentSummary ops =
     \<lparr>as_Agent = [], as_Model = [], as_InputTokens = 0, as_OutputTokens = 0,
      as_Cost = f_lit ops 0, as_Duration = 0, as_Operations = 0, as_Successes = 0\<rparr>"

definition zero_ModelSummary :: "'f float_ops \<Rightarrow> 'f ModelSummary" where
  "zero_ModelSummary ops =
     \<lparr>ms_Model = [], ms_InputTokens = 0, ms_OutputTokens = 0, ms_Cost = f_lit ops 0,
      ms_Operations = 0\<rparr>"

definition empty_summary :: "'f float_ops \<Rightarrow> 'f UsageSummary" where
  "empty_summary ops =
     \<lparr>TotalInputTokens = 0, TotalOutputTokens = 0, TotalCost = f_lit ops 0,
      TotalDuration = 0, TotalOperations = 0, SuccessfulOperations = 0,
      ByAgent = Map.empty, ByModel = Map.empty\<rparr>"

text \<open>The body of the loop \<^verbatim>\<open>for _, usage := range t.usages\<close>.\<close>

definition summary_step :: "'f float_ops \<Rightarrow> 'f UsageSummary \<Rightarrow> UsageStats \<Rightarrow> 'f UsageSummary" where
  "summary_step ops summary usage =
     (let agentSummary0 =
            (case ByAgent summary (Agent usage) of
               None \<Rightarrow> zero_AgentSummary ops | Some a \<Rightarrow> a);
          agentSummary =
            agentSummary0\<lparr>
              as_Agent := Agent usage,
              as_Model := Model usage,
              as_InputTokens := as_InputTokens agentSummary0 + InputTokens usage,
              as_OutputTokens := as_OutputTokens agentSummary0 + OutputTokens usage,
              as_Cost := f_add ops (as_Cost agentSummary0) (CalculateCost ops usage),
              as_Duration := as_Duration agentSummary0 + Duration usage,
              as_Operations := as_Operations agentSummary0 + 1,
              as_Successes :=
                (if Success usage then as_Successes agentSummary0 + 1
                 else as_Successes agentSummary0)\<rparr>;
          modelSummary0 =
            (case ByModel summary (Model usage) of
               None \<Rightarrow> zero_ModelSummary ops | Some m \<Rightarrow> m);
          modelSummary =
            modelSummary0\<lparr>
              ms_Model := Model usage,
              ms_InputTokens := ms_InputTokens modelSummary0 + InputTokens usage,
              ms_OutputTokens := ms_OutputTokens modelSummary0 + OutputTokens usage,
              ms_Cost := f_add ops (ms_Cost modelSummary0) (CalculateCost ops usage),
              ms_Operations := ms_Operations modelSummary0 + 1\<rparr>
      in summary\<lparr>
           TotalInputTokens := TotalInputTokens summary + InputTokens usage,
           TotalOutputTokens := TotalOutputTokens summary + OutputTokens usage,
           TotalCost := f_add ops (TotalCost summary) (CalculateCost ops usage),
           TotalDuration := TotalDuration summary + Duration usage,
           TotalOperations := TotalOperations summary + 1,
           SuccessfulOperations :=
             (if Success usage then SuccessfulOperations summary + 1
              else SuccessfulOperations summary),
           ByAgent := (ByAgent summary)(Agent usage \<mapsto> agentSummary),
           ByModel := (ByModel summary)(Model usage \<mapsto> modelSummary)\<rparr>)"

fun summary_loop_over :: "'f float_ops \<Rightarrow> 'f UsageSummary \<Rightarrow> UsageStats list \<Rightarrow> 'f UsageSummary" where
  "summary_loop_over ops summary [] = summary"
| "summary_loop_over ops summary (usage # rest) =
     summary_loop_over ops (summary_step ops summary usage) rest"

definition GetSummary :: "'f float_ops \<Rightarrow> UsageTracker \<Rightarrow> 'f UsageSummary" where
  "GetSummary ops t = summary_loop_over ops (empty_summary ops) (usages t)"

text \<open>
  The sum of a list of costs as the loop adds them: from \<^verbatim>\<open>0.0\<close>, one \<^verbatim>\<open>+=\<close> per
  record, in the order of the records.
\<close>

definition float_sum :: "'f float_ops \<Rightarrow> 'f list \<Rightarrow> 'f" where
  "float_sum ops xs = foldl (f_add ops) (f_lit ops 0) xs"

section \<open>Scan data and prompts (pkg/models, internal/ai)\<close>

text \<open>
  The fields of \<^verbatim>\<open>models.Finding\<close> and \<^verbatim>\<open>models.ScanResult\<close> that the functions
  below read; the others (CVSS, tags, metadata, status, duration) are read by none of
  them. Field names carry a prefix where two Go structs share a name.
\<close>

record Finding =
  fd_ID :: string
  fd_Type :: string
  fd_Severity :: string
  fd_Title :: string
  fd_Description :: string
  fd_Evidence :: string
  fd_Location :: string

record ScanResult =
  sr_ID :: string
  sr_Target :: string
  sr_StartTime :: go_time
  sr_EndTime :: go_time
  sr_Findings :: "Finding list"

record AttackChain =
  ch_ID :: string
  ch_Severity :: string
  ch_Description :: string
  ch_Steps :: "string list"
  ch_Impact :: string
  ch_Likelihood :: string

record AIAnalysis =
  ScanID :: string
  Summary :: string
  CriticalIssues :: "string list"
  Recommendations :: "Recommendation list"
  AttackChains :: "AttackChain list"
  RiskScore :: go_int
  Timestamp :: go_time

text \<open>The verb \<^verbatim>\<open>%d\<close> on a count: the decimal digits of a natural number.\<close>

function show_nat :: "nat \<Rightarrow> string" where
  "show_nat n =
     (if n < 10 then [char_of (48 + n)]
      else show_nat (n div 10) @ [char_of (48 + n mod 10)])"
  by pat_completeness auto
termination
  by (relation "measure (\<lambda>n. n)") auto

declare show_nat.simps [simp del]

text \<open>
  The loop of \<^verbatim>\<open>formatFindings\<close> over \<^verbatim>\<open>for i, finding := range findings\<close>; the first
  argument is \<open>i\<close>.
\<close>

fun formatFindings_loop :: "nat \<Rightarrow> Finding list \<Rightarrow> string" where
  "formatFindings_loop i [] = []"
| "formatFindings_loop i (finding # rest) =
     ([CHR 0x0A] @ show_nat (i + 1) @ ''. ['' @ fd_Severity finding @ ''] '' @
        fd_Title finding) @
     (if fd_Description finding \<noteq> [] then
        [CHR 0x0A] @ ''   Details: '' @ fd_Description finding
      else []) @
     formatFindings_loop (i + 1) rest"

definition formatFindings :: "Finding list \<Rightarrow> string" where
  "formatFindings findings =
     (if length findings = 0 then ''No findings detected''
      else formatFindings_loop 0 findings)"

text \<open>
  \<^verbatim>\<open>time.Time.Format(time.RFC3339)\<close> belongs to the standard library; the prompt
  builders take it as the argument \<open>format_rfc3339\<close>.
\<close>

definition buildAnalysisPrompt :: "(go_time \<Rightarrow> string) \<Rightarrow> ScanResult \<Rightarrow> string" where
  "buildAnalysisPrompt format_rfc3339 result =
       ''# Security Scan Analysis Request'' @ [CHR 0x0A, CHR 0x0A] @
       ''## Target Information'' @ [CHR 0x0A] @ ''- **Target**: '' @
       sr_Target result @ [CHR 0x0A] @ ''- **Scan Time**: '' @
       format_rfc3339 (sr_StartTime result) @ [CHR 0x0A] @
       ''- **Total Findings**: '' @ show_nat (length (sr_Findings result)) @
       [CHR 0x0A, CHR 0x0A] @ ''## Analysis Tasks'' @ [CHR 0x0A] @
       ''1. Executive Summary (2-3 sentences)'' @ [CHR 0x0A] @
       ''2. Critical Issues (top 3-5 vulnerabilities)'' @ [CHR 0x0A] @
       ''3. Risk Assessment (score 0-100)'' @ [CHR 0x0A] @
       ''4. Prioritized Recommendations'' @ [CHR 0x0A] @
       ''5. Potential Attack Chains'' @ [CHR 0x0A, CHR 0x0A] @ ''## Scan Findings'' @
       [CHR 0x0A] @ formatFindings (sr_Findings result) @ [CHR 0x0A, CHR 0x0A] @
       ''## Output Format'' @ [CHR 0x0A] @
       ''Use markdown headings. Be specific and actionable.''"

definition buildReconPrompt :: "ScanResult \<Rightarrow> string" where
  "buildReconPrompt result =
       ''# Reconnaissance Analysis'' @ [CHR 0x0A, CHR 0x0A] @
       ''Analyze the target'' @ [CHR 0x27] @ ''s attack surface:'' @ [CHR 0x0A] @
       ''- Exposed services and ports'' @ [CHR 0x0A] @
       ''- Technology stack and versions'' @ [CHR 0x0A] @
       ''- Configuration weaknesses'' @ [CHR 0x0A] @ ''- Potential entry points'' @
       [CHR 0x0A, CHR 0x0A] @ ''Target: '' @ sr_Target result @ [CHR 0x0A] @
       ''Findings: '' @ formatFindings (sr_Findings result) @ [CHR 0x0A, CHR 0x0A] @
       ''Provide detailed reconnaissance insights.''"

definition buildVulnPrompt :: "ScanResult \<Rightarrow> string \<Rightarrow> string" where
  "buildVulnPrompt result reconData =
       ''# Vulnerability Analysis'' @ [CHR 0x0A, CHR 0x0A] @
       ''Based on reconnaissance findings, perform deep vulnerability analysis:'' @
       [CHR 0x0A] @ ''- OWASP Top 10 vulnerabilities'' @ [CHR 0x0A] @
       ''- Known CVEs'' @ [CHR 0x0A] @ ''- Configuration issues'' @ [CHR 0x0A] @
       ''- Security misconfigurations'' @ [CHR 0x0A, CHR 0x0A] @ ''Target: '' @
       sr_Target result @ [CHR 0x0A] @ ''Reconnaissance Data:'' @ [CHR 0x0A] @
       reconData @ [CHR 0x0A, CHR 0x0A] @ ''Scan Findings:'' @ [CHR 0x0A] @
       formatFindings (sr_Findings result) @ [CHR 0x0A, CHR 0x0A] @
       ''Provide comprehensive vulnerability assessment with risk scores.''"

definition buildExploitPrompt :: "ScanResult \<Rightarrow> string \<Rightarrow> string \<Rightarrow> string" where
  "buildExploitPrompt result reconData vulnData =
       ''# Exploitation Analysis'' @ [CHR 0x0A, CHR 0x0A] @
       ''Analyze exploitation possibilities:'' @ [CHR 0x0A] @
       ''- Complete attack chains'' @ [CHR 0x0A] @ ''- Exploitation prerequisites'' @
       [CHR 0x0A] @ ''- Proof-of-concept approaches'' @ [CHR 0x0A] @
       ''- Real-world impact'' @ [CHR 0x0A, CHR 0x0A] @ ''Target: '' @
       sr_Target result @ [CHR 0x0A, CHR 0x0A] @ ''Reconnaissance:'' @ [CHR 0x0A] @
       reconData @ [CHR 0x0A, CHR 0x0A] @ ''Vulnerabilities:'' @ [CHR 0x0A] @
       vulnData @ [CHR 0x0A, CHR 0x0A] @
       ''Provide detailed exploitation assessment.''"





section \<open>Multi-agent analysis (internal/ai/agent\_manager.go)\<close>

text \<open>\<^verbatim>\<open>type AgentType string\<close> and its constants (pkg/models).\<close>

type_synonym AgentType = string

definition AgentTypeRecon :: AgentType where
  "AgentTypeRecon = ''reconnaissance''"

definition AgentTypeVulnerability :: AgentType where
  "AgentTypeVulnerability = ''vulnerability''"

definition AgentTypeExploitation :: AgentType where
  "AgentTypeExploitation = ''exploitation''"

definition AgentTypeReport :: AgentType where
  "AgentTypeReport = ''report''"

definition AgentTypeQuickScan :: AgentType where
  "AgentTypeQuickScan = ''quick-scan''"

record AgentConfig =
  ac_Name :: string
  ac_Type :: AgentType
  ac_Model :: string
  ac_Thinking :: string
  ac_SystemPrompt :: string
  ac_Description :: string
  ac_UseCase :: string

definition GetDefaultAgents :: "AgentConfig list" where
  "GetDefaultAgents =
     [\<lparr>ac_Name = ''Quick Scanner'', ac_Type = AgentTypeQuickScan,
       ac_Model = ''claude-haiku-4.5'', ac_Thinking = ''low'', ac_SystemPrompt = [],
       ac_Description = ''Fast initial scan analysis'',
       ac_UseCase = ''Quick triage and basic vulnerability identification''\<rparr>,
      \<lparr>ac_Name = ''Reconnaissance Analyst'', ac_Type = AgentTypeRecon,
       ac_Model = ''claude-sonnet-4.5-20250929'', ac_Thinking = ''high'', ac_SystemPrompt = [],
       ac_Description = ''Deep reconnaissance and attack surface analysis'',
       ac_UseCase = ''Technology identification, service enumeration, attack surface mapping''\<rparr>,
      \<lparr>ac_Name = ''Vulnerability Researcher'', ac_Type = AgentTypeVulnerability,
       ac_Model = ''claude-sonnet-4.5-20250929'', ac_Thinking = ''high'', ac_SystemPrompt = [],
       ac_Description = ''Comprehensive vulnerability analysis'',
       ac_UseCase = ''OWASP Top 10, CVE research, vulnerability prioritization''\<rparr>,
      \<lparr>ac_Name = ''Exploitation Specialist'', ac_Type = AgentTypeExploitation,
       ac_Model = ''claude-opus-4.6'', ac_Thinking = ''high'', ac_SystemPrompt = [],
       ac_Description = ''Advanced exploitation path analysis'',
       ac_UseCase = ''Attack chain development, exploitation techniques, proof-of-concept''\<rparr>,
      \<lparr>ac_Name = ''Security Reporter'', ac_Type = AgentTypeReport,
       ac_Model = ''claude-sonnet-4.5-20250929'', ac_Thinking = ''high'', ac_SystemPrompt = [],
       ac_Description = ''Executive and technical report generation'',
       ac_UseCase = ''Risk assessment, executive summaries, remediation roadmaps''\<rparr>]"

text \<open>
  An agent is its configuration and its client; the client is the external one-shot
  session, whose answers are in the environment below. The manager holds the agents by
  type and the usage tracker.
\<close>

record AgentManager =
  agents :: "AgentType \<rightharpoonup> AgentConfig"
  tracker :: UsageTracker

text \<open>
  \<^verbatim>\<open>NewAgentManager\<close>, once every client has started: the loop stores each default
  agent under its type.
\<close>

fun register_agents :: "(AgentType \<rightharpoonup> AgentConfig) \<Rightarrow> AgentConfig list \<Rightarrow> (AgentType \<rightharpoonup> AgentConfig)" where
  "register_agents m [] = m"
| "register_agents m (config # rest) = register_agents (m(ac_Type config \<mapsto> config)) rest"

definition NewAgentManager :: AgentManager where
  "NewAgentManager =
     \<lparr>agents = register_agents Map.empty GetDefaultAgents, tracker = NewUsageTracker\<rparr>"

text \<open>
  What one call of \<^verbatim>\<open>AnalyzeWithAgent\<close> meets outside itself: \<open>client_Run t p\<close> is what
  the client of the agent of type \<open>t\<close> returns for the prompt \<open>p\<close> (an error, or the text
  of the result); \<open>ticker_lines t\<close> are the progress lines the 15-second ticker emits
  while that call runs; \<open>run_start\<close>, \<open>run_duration\<close> and \<open>run_end\<close> are the clock
  readings taken around it.
\<close>

record agent_env =
  client_Run :: "AgentType \<Rightarrow> string \<Rightarrow> go_error + string"
  ticker_lines :: "AgentType \<Rightarrow> string list"
  run_start :: "AgentType \<Rightarrow> go_time"
  run_duration :: "AgentType \<Rightarrow> duration"
  run_end :: "AgentType \<Rightarrow> go_time"

definition getModelShortName :: "string \<Rightarrow> string" where
  "getModelShortName model =
     (if model = ''claude-opus-4.6'' then ''Opus 4.6''
      else if model = ''claude-sonnet-4.5'' \<or> model = ''claude-sonnet-4.5-20250929''
        then ''Sonnet 4.5''
      else if model = ''claude-haiku-4.5'' then ''Haiku 4.5''
      else model)"

text \<open>
  The progress callback may be \<^verbatim>\<open>nil\<close>: \<open>progress\<close> says that it is not, and the list
  \<open>plog\<close> holds the messages it has been called with, in order. With a \<^verbatim>\<open>nil\<close>
  callback nothing is added.
\<close>

definition report :: "bool \<Rightarrow> string list \<Rightarrow> string list \<Rightarrow> string list" where
  "report progress plog msgs = (if progress then plog @ msgs else plog)"

definition AnalyzeWithAgent ::
  "AgentManager \<Rightarrow> agent_env \<Rightarrow> AgentType \<Rightarrow> string \<Rightarrow> bool \<Rightarrow> string list
     \<Rightarrow> (go_error + string) \<times> AgentManager \<times> string list" where
  "AnalyzeWithAgent m env agentType prompt progress plog =
     (case agents m agentType of
        None \<Rightarrow> (Inl (ErrOpaque (''agent type '' @ agentType @ '' not found'')), m, plog)
      | Some config \<Rightarrow>
         (let plog1 = report progress plog
                [[CHR 0xF0, CHR 0x9F, CHR 0xA4, CHR 0x96] @ '' Using '' @ ac_Name config @ '' ('' @
                   getModelShortName (ac_Model config) @ '')'',
                 [CHR 0xF0, CHR 0x9F, CHR 0x93, CHR 0x8B] @ '' Task: '' @ ac_Description config];
              plog2 = report progress plog1 (ticker_lines env agentType);
              result = client_Run env agentType prompt;
              stats0 = \<lparr>Model = ac_Model config, Agent = ac_Name config,
                        InputTokens = 0, OutputTokens = 0,
                        Duration = run_duration env agentType,
                        StartTime = run_start env agentType,
                        EndTime = run_end env agentType,
                        Success = (case result of Inl err \<Rightarrow> False | Inr text \<Rightarrow> True),
                        Error = []\<rparr>;
              stats =
                (case result of
                   Inl err \<Rightarrow> stats0\<lparr>Error := err_Error err\<rparr>
                 | Inr text \<Rightarrow>
                     stats0\<lparr>InputTokens := of_nat (length prompt div 4),
                            OutputTokens := of_nat (length text div 4)\<rparr>);
              m' = m\<lparr>tracker := RecordUsage (tracker m) stats\<rparr>
          in case result of
               Inl err \<Rightarrow> (Inl (ErrWrap ''analysis failed: '' err []), m', plog2)
             | Inr text \<Rightarrow> (Inr text, m', plog2)))"

text \<open>\<^verbatim>\<open>time.Now()\<close> is the argument \<open>now\<close>.\<close>

definition parseAnalysisResponse :: "case_table \<Rightarrow> string \<Rightarrow> string \<Rightarrow> go_time \<Rightarrow> AIAnalysis" where
  "parseAnalysisResponse U text scanID now =
     \<lparr>ScanID = scanID,
      Summary = parseAnalysisSummary U text,
      CriticalIssues = parseCriticalIssues U text,
      Recommendations = parseRecommendations U text,
      AttackChains = [],
      RiskScore = parseRiskScore U text,
      Timestamp = now\<rparr>"

definition exploit_placeholder :: string where
  "exploit_placeholder = ''Exploitation analysis not available.''"

definition exploit_warning :: "go_error \<Rightarrow> string" where
  "exploit_warning err =
     [CHR 0xE2, CHR 0x9A, CHR 0xA0, CHR 0xEF, CHR 0xB8, CHR 0x8F] @ ''  Exploitation analysis unavailable: '' @ err_Error err"

definition combine_stages :: "string \<Rightarrow> string \<Rightarrow> string \<Rightarrow> string" where
  "combine_stages reconResult vulnResult exploitResult =
       ''# Reconnaissance Findings'' @ [CHR 0x0A] @ reconResult @
       [CHR 0x0A, CHR 0x0A] @ ''# Vulnerability Analysis'' @ [CHR 0x0A] @
       vulnResult @ [CHR 0x0A, CHR 0x0A] @ ''# Exploitation Assessment'' @
       [CHR 0x0A] @ exploitResult"

definition runDeepAnalysis ::
  "case_table \<Rightarrow> AgentManager \<Rightarrow> agent_env \<Rightarrow> ScanResult \<Rightarrow> bool \<Rightarrow> string list \<Rightarrow> go_time
     \<Rightarrow> (go_error + AIAnalysis) \<times> AgentManager \<times> string list" where
  "runDeepAnalysis U m env result progress plog now =
     (let plog1 = report progress plog
            [[CHR 0xF0, CHR 0x9F, CHR 0x94, CHR 0xAC] @ '' Deep analysis mode: Using multiple specialized agents''];
          plog2 = report progress plog1
            [[CHR 0x0A, CHR 0xF0, CHR 0x9F, CHR 0x93, CHR 0x8D] @ '' Stage 1/3: Reconnaissance Analysis''];
          reconPrompt = buildReconPrompt result;
          (r1, m1, plog3) = AnalyzeWithAgent m env AgentTypeRecon reconPrompt progress plog2
      in case r1 of
           Inl err \<Rightarrow> (Inl (ErrWrap ''recon stage failed: '' err []), m1, plog3)
         | Inr reconResult \<Rightarrow>
            (let plog4 = report progress plog3
                   [[CHR 0x0A, CHR 0xF0, CHR 0x9F, CHR 0x94, CHR 0x8D] @ '' Stage 2/3: Vulnerability Analysis''];
                 vulnPrompt = buildVulnPrompt result reconResult;
                 (r2, m2, plog5) =
                   AnalyzeWithAgent m1 env AgentTypeVulnerability vulnPrompt progress plog4
             in case r2 of
                  Inl err \<Rightarrow> (Inl (ErrWrap ''vulnerability stage failed: '' err []), m2, plog5)
                | Inr vulnResult \<Rightarrow>
                   (let plog6 = report progress plog5
                          [[CHR 0x0A, CHR 0xF0, CHR 0x9F, CHR 0x92, CHR 0xA5] @ '' Stage 3/3: Exploitation Analysis''];
                        exploitPrompt = buildExploitPrompt result reconResult vulnResult;
                        (r3, m3, plog7) =
                          AnalyzeWithAgent m2 env AgentTypeExploitation exploitPrompt progress plog6;
                        (exploitResult, plog8) =
                          (case r3 of
                             Inl err \<Rightarrow>
                               (exploit_placeholder, report progress plog7 [exploit_warning err])
                           | Inr text \<Rightarrow> (text, plog7));
                        combinedText = combine_stages reconResult vulnResult exploitResult
                    in (Inr (parseAnalysisResponse U combinedText (sr_ID result) now), m3, plog8))))"

definition runQuickAnalysis ::
  "case_table \<Rightarrow> (go_time \<Rightarrow> string) \<Rightarrow> AgentManager \<Rightarrow> agent_env \<Rightarrow> ScanResult \<Rightarrow> bool \<Rightarrow> string list
     \<Rightarrow> go_time \<Rightarrow> (go_error + AIAnalysis) \<times> AgentManager \<times> string list" where
  "runQuickAnalysis U format_rfc3339 m env result progress plog now =
     (let prompt = buildAnalysisPrompt format_rfc3339 result;
          (r, m1, plog1) = AnalyzeWithAgent m env AgentTypeQuickScan prompt progress plog
      in case r of
           Inl err \<Rightarrow> (Inl err, m1, plog1)
         | Inr text \<Rightarrow> (Inr (parseAnalysisResponse U text (sr_ID result) now), m1, plog1))"

definition runStandardAnalysis ::
  "case_table \<Rightarrow> (go_time \<Rightarrow> string) \<Rightarrow> AgentManager \<Rightarrow> agent_env \<Rightarrow> ScanResult \<Rightarrow> bool \<Rightarrow> string list
     \<Rightarrow> go_time \<Rightarrow> (go_error + AIAnalysis) \<times> AgentManager \<times> string list" where
  "runStandardAnalysis U format_rfc3339 m env result progress plog now =
     (let findings = sr_Findings result;
          plog0 = report progress plog
            ([[CHR 0xF0, CHR 0x9F, CHR 0x93, CHR 0x8B] @ '' Preparing analysis of '' @ show_nat (length findings) @
                '' findings from '' @ sr_Target result] @
             map (\<lambda>finding. ''   '' @ [CHR 0xE2, CHR 0x80, CHR 0xA2] @ '' ['' @ fd_Severity finding @ ''] '' @
                    fd_Title finding) (take 3 findings) @
             (if length findings > 3 then
                [''   '' @ [CHR 0xE2, CHR 0x80, CHR 0xA2] @ '' ... and '' @ show_nat (length findings - 3) @ '' more'']
              else []) @
             [[]]);
          prompt = buildAnalysisPrompt format_rfc3339 result;
          (r, m1, plog1) = AnalyzeWithAgent m env AgentTypeVulnerability prompt progress plog0
      in case r of
           Inl err \<Rightarrow> (Inl err, m1, plog1)
         | Inr text \<Rightarrow> (Inr (parseAnalysisResponse U text (sr_ID result) now), m1, plog1))"

definition AnalyzeScanWithAgents ::
  "case_table \<Rightarrow> (go_time \<Rightarrow> string) \<Rightarrow> AgentManager \<Rightarrow> agent_env \<Rightarrow> ScanResult \<Rightarrow> string \<Rightarrow> bool
     \<Rightarrow> string list \<Rightarrow> go_time \<Rightarrow> (go_error + AIAnalysis) \<times> AgentManager \<times> string list" where
  "AnalyzeScanWithAgents U format_rfc3339 m env result profile progress plog now =
     (let plog1 = report progress plog
            [[CHR 0xF0, CHR 0x9F, CHR 0x9A, CHR 0x80] @ '' Starting multi-agent analysis...'']
      in if profile = ''quick'' then runQuickAnalysis U format_rfc3339 m env result progress plog1 now
         else if profile = ''standard'' then
           runStandardAnalysis U format_rfc3339 m env result progress plog1 now
         else if profile = ''deep'' then runDeepAnalysis U m env result progress plog1 now
         else runStandardAnalysis U format_rfc3339 m env result progress plog1 now)"

text \<open>
  What a call of \<^verbatim>\<open>AnalyzeWithAgent\<close> returns. It depends on the agents of the manager
  and on the client, not on the callback, the messages so far or the tracker (lemmas
  \<open>AnalyzeWithAgent_fst\<close> and \<open>stage_outcome_agents\<close> below).
\<close>

definition stage_outcome :: "AgentManager \<Rightarrow> agent_env \<Rightarrow> AgentType \<Rightarrow> string \<Rightarrow> go_error + string" where
  "stage_outcome m env agentType prompt = fst (AnalyzeWithAgent m env agentType prompt False [])"

section \<open>Sample inputs\<close>

text \<open>
  A case table for running the functions: two entries of the library's table, the
  capital I with dot above (U+0130) and the Kelvin sign (U+212A), whose lower cases are
  the ASCII letters i and k; every other code point is left as it is.
\<close>

definition sample_case_table :: case_table where
  "sample_case_table r = (if r = 0x130 then 0x69 else if r = 0x212A then 0x6B else r)"

text \<open>
  A model response with a critical section. Its fourth line spells CRITICAL with the
  dotted capital I (bytes C4 B0), its fifth line is indented with two no-break spaces
  (bytes C2 A0).
\<close>

definition sample_response :: string where
  "sample_response =
     ''## Critical Issues'' @ [CHR 0x0A] @
     ''- SQL injection in /login'' @ [CHR 0x0A] @
     ''* CRITICAL: default admin password'' @ [CHR 0x0A] @
     ''- CR'' @ [CHR 0xC4, CHR 0xB0] @ ''T'' @ [CHR 0xC4, CHR 0xB0] @ ''CAL: exposed backup''
       @ [CHR 0x0A] @
     [CHR 0xC2, CHR 0xA0, CHR 0xC2, CHR 0xA0] @ ''* weak TLS ciphers'' @ [CHR 0x0A] @
     ''## Recommendations'' @ [CHR 0x0A] @
     ''- rotate credentials''"

text \<open>
  Errors: an HTTP status in a wrapped client error, a time-out spelled in capitals with
  the dotted capital I, and the empty-response sentinel wrapped by \<^verbatim>\<open>fmt.Errorf\<close>.
\<close>

definition err_http_429 :: go_error where
  "err_http_429 =
     ErrWrap ''failed to run analysis: '' (ErrOpaque ''HTTP 429 Too Many Requests'') []"

definition err_dotted_timeout :: go_error where
  "err_dotted_timeout = ErrOpaque (''REQUEST T'' @ [CHR 0xC4, CHR 0xB0] @ ''MEOUT'')"

definition err_wrapped_empty :: go_error where
  "err_wrapped_empty = ErrWrap ''analysis of example.com: '' ErrEmptyResponse []"

text \<open>
  Two attempt functions under a context that is never cancelled: one fails every time
  with an error no pattern matches, one fails every time with a connection error.
\<close>

definition fatal_env :: "AIAnalysis retry_env" where
  "fatal_env =
     \<lparr>attempt_fn = (\<lambda>k. Inl (ErrOpaque ''invalid API key'')),
      ctx_done = (\<lambda>k. None), sleep_ctx = (\<lambda>k. None)\<rparr>"


text \<open>Three usage records: a priced success, a failure of an unknown model, a priced success.\<close>

definition sample_usages :: "UsageStats list" where
  "sample_usages =
     [\<lparr>Model = ''claude-opus-4.6'', Agent = ''Exploitation Specialist'',
       InputTokens = 2000000, OutputTokens = 1000000, Duration = 5000000000,
       StartTime = 0, EndTime = 5, Success = True, Error = []\<rparr>,
      \<lparr>Model = ''gpt-unknown'', Agent = ''Quick Scanner'',
       InputTokens = 500000, OutputTokens = 500000, Duration = 1000000000,
       StartTime = 5, EndTime = 6, Success = False, Error = ''timeout''\<rparr>,
      \<lparr>Model = ''claude-haiku-4.5'', Agent = ''Quick Scanner'',
       InputTokens = 1000000, OutputTokens = 250000, Duration = 1000000000,
       StartTime = 6, EndTime = 7, Success = True, Error = []\<rparr>]"

text \<open>
  Two terminals with a working sudo: at one the user answers "Yes" followed by a no-break space, at the other "always"
  and then "no". The results of the permission requests made there.
\<close>

definition always_world :: os_world where
  "always_world =
     \<lparr>stdin_reads = [Inr (''always'' @ [CHR 0x0A]), Inr (''no'' @ [CHR 0x0A])],
      stdout = [], lookpath_sudo = True, sudo_n_true = True\<rparr>"

definition yes_world :: os_world where
  "yes_world =
     \<lparr>stdin_reads = [Inr (''Yes'' @ [CHR 0xC2, CHR 0xA0, CHR 0x0A])],
      stdout = [], lookpath_sudo = True, sudo_n_true = True\<rparr>"

definition after_yes :: "(bool \<times> go_error option) \<times> PermissionManager \<times> os_world" where
  "after_yes = RequestRootPermission sample_case_table NewPermissionManager yes_world
     ''nmap'' ''SYN scan'' ''sudo nmap -sS example.com''"

definition after_always :: "(bool \<times> go_error option) \<times> PermissionManager \<times> os_world" where
  "after_always = RequestRootPermission sample_case_table NewPermissionManager always_world
     ''nmap'' ''SYN scan'' ''sudo nmap -sS example.com''"

definition after_always_other :: "(bool \<times> go_error option) \<times> PermissionManager \<times> os_world" where
  "after_always_other = RequestRootPermission sample_case_table (fst (snd after_always)) (snd (snd after_always))
     ''nmap'' ''OS detection'' ''sudo nmap -O example.com''"

text \<open>
  A scan without findings, two stage texts, and clients of which exactly the one of the
  agent type \<open>failing\<close> fails.
\<close>

definition sample_scan :: ScanResult where
  "sample_scan =
     \<lparr>sr_ID = ''scan-1'', sr_Target = ''example.com'', sr_StartTime = 0, sr_EndTime = 60,
      sr_Findings = []\<rparr>"

definition recon_text :: string where
  "recon_text = ''Open ports: 22, 80''"

definition vuln_text :: string where
  "vuln_text = ''## Summary'' @ [CHR 0x0A] @ ''Two serious issues.'' @ [CHR 0x0A] @
     ''Risk Score: 72/100''"

definition stage_env :: "AgentType \<Rightarrow> agent_env" where
  "stage_env failing =
     \<lparr>client_Run = (\<lambda>t p. if t = failing then Inl (ErrOpaque ''overloaded'')
                           else if t = AgentTypeRecon then Inr recon_text
                           else Inr vuln_text),
      ticker_lines = (\<lambda>t. []),
      run_start = (\<lambda>t. 0), run_duration = (\<lambda>t. 1000000000), run_end = (\<lambda>t. 1)\<rparr>"


section \<open>Properties of the string functions\<close>

subsection \<open>Equations for running the decoder\<close>

text \<open>
  The same functions by recursion on the list, without \<open>length\<close> and \<open>!\<close>, for
  evaluation; an ASCII byte is decoded without a call of \<open>decode_first\<close>.
\<close>

lemma decode_first_Nil [code]: "decode_first [] = (RuneError, 0)"
  by (simp add: decode_first_def)

lemma decode_first_Cons [code]:
  "decode_first (c0 # rest) =
     (let s0 = byte c0 in
      if s0 < 0x80 then (s0, 1)
      else if s0 < 0xC2 \<or> 0xF4 < s0 then (RuneError, 1)
      else
        (case rest of
           [] \<Rightarrow> (RuneError, 1)
         | c1 # rest1 \<Rightarrow>
            (let s1 = byte c1 in
             if s1 < accept_lo s0 \<or> accept_hi s0 < s1 then (RuneError, 1)
             else if rune_size s0 \<le> 2 then ((s0 mod 32) * 64 + s1 mod 64, 2)
             else
               (case rest1 of
                  [] \<Rightarrow> (RuneError, 1)
                | c2 # rest2 \<Rightarrow>
                   (let s2 = byte c2 in
                    if s2 < 0x80 \<or> 0xBF < s2 then (RuneError, 1)
                    else if rune_size s0 \<le> 3 then
                      ((s0 mod 16) * 4096 + (s1 mod 64) * 64 + s2 mod 64, 3)
                    else
                      (case rest2 of
                         [] \<Rightarrow> (RuneError, 1)
                       | c3 # rest3 \<Rightarrow>
                          (let s3 = byte c3 in
                           if s3 < 0x80 \<or> 0xBF < s3 then (RuneError, 1)
                           else
                             ((s0 mod 8) * 262144 + (s1 mod 64) * 4096 + (s2 mod 64) * 64
                                + s3 mod 64, 4))))))))"
proof -
  have b: "2 \<le> rune_size (byte c0) \<and> rune_size (byte c0) \<le> 4"
    by (simp add: rune_size_def)
  show ?thesis
    using b by (auto simp: decode_first_def Let_def split: list.splits)
qed

lemma decode_Nil_code [code]: "decode [] = []"
  by (simp add: decode.simps)

lemma decode_Cons_code [code]:
  "decode (c # s) =
     (if byte c < 0x80 then (byte c, [c]) # decode s
      else (let (r, width) = decode_first (c # s)
            in (r, take width (c # s)) # decode (drop width (c # s))))"
  by (simp add: decode.simps [of "c # s"] decode_first_def)

subsection \<open>Decoding\<close>

lemma rune_size_bounds: "2 \<le> rune_size b \<and> rune_size b \<le> 4"
  by (simp add: rune_size_def)

lemma decode_first_width:
  "s \<noteq> [] \<Longrightarrow> 1 \<le> snd (decode_first s) \<and> snd (decode_first s) \<le> length s"
  using rune_size_bounds [of "byte (s ! 0)"]
  by (cases s) (auto simp: decode_first_def)


lemma decode_Nil [simp]: "decode [] = []"
  by (simp add: decode.simps)

lemma decode_nonempty:
  "s \<noteq> [] \<Longrightarrow> decode s =
     (fst (decode_first s), take (snd (decode_first s)) s) # decode (drop (snd (decode_first s)) s)"
  by (subst decode.simps) (simp add: split_beta)

lemma concat_decode: "concat (map snd (decode s)) = s"
proof (induction s rule: decode.induct)
  case (1 s)
  show ?case
  proof (cases "s = []")
    case True
    then show ?thesis by simp
  next
    case False
    then show ?thesis
      using 1 [OF False refl, of "fst (decode_first s)" "snd (decode_first s)"]
      by (simp add: decode_nonempty)
  qed
qed



lemma decode_first_ascii:
  "s \<noteq> [] \<Longrightarrow> byte (s ! 0) < 0x80 \<Longrightarrow> decode_first s = (byte (s ! 0), 1)"
  by (simp add: decode_first_def)

lemma decode_first_bad_lead:
  "s \<noteq> [] \<Longrightarrow> \<not> byte (s ! 0) < 0x80 \<Longrightarrow> byte (s ! 0) < 0xC2 \<or> 0xF4 < byte (s ! 0)
     \<Longrightarrow> decode_first s = (RuneError, 1)"
  by (simp add: decode_first_def)

lemma decode_first_short:
  "s \<noteq> [] \<Longrightarrow> \<not> byte (s ! 0) < 0x80 \<Longrightarrow> length s < rune_size (byte (s ! 0))
     \<Longrightarrow> decode_first s = (RuneError, 1)"
  by (simp add: decode_first_def)

lemma decode_first_multi:
  "s \<noteq> [] \<Longrightarrow> \<not> byte (s ! 0) < 0x80
     \<Longrightarrow> decode_first s = (RuneError, 1) \<or> snd (decode_first s) = rune_size (byte (s ! 0))"
  using rune_size_bounds [of "byte (s ! 0)"]
  by (auto simp: decode_first_def)

lemma decode_first_take:
  assumes "s \<noteq> []" "snd (decode_first s) \<le> n"
  shows "decode_first (take n s) = decode_first s"
proof -
  let ?t = "take n s"
  have n1: "1 \<le> n"
    using decode_first_width [OF assms(1)] assms(2) by simp
  then have t: "?t \<noteq> []" and t0: "?t ! 0 = s ! 0"
    using assms(1) by (cases n; simp)+
  show ?thesis
  proof (cases "byte (s ! 0) < 0x80")
    case True
    then show ?thesis
      using decode_first_ascii [OF assms(1)] decode_first_ascii [OF t] t0 by simp
  next
    case high: False
    show ?thesis
    proof (cases "n < rune_size (byte (s ! 0))")
      case True
      then have "decode_first ?t = (RuneError, 1)"
        using decode_first_short [OF t] high t0 by simp
      moreover have "decode_first s = (RuneError, 1)"
        using decode_first_multi [OF assms(1) high] assms(2) True by auto
      ultimately show ?thesis by simp
    next
      case False
      then have sz: "rune_size (byte (s ! 0)) \<le> n" by simp
      have len: "length ?t < rune_size (byte (s ! 0)) \<longleftrightarrow> length s < rune_size (byte (s ! 0))"
        using sz by auto
      have i1: "?t ! 1 = s ! 1"
        using sz rune_size_bounds [of "byte (s ! 0)"] by simp
      have i2: "\<not> rune_size (byte (s ! 0)) \<le> 2 \<Longrightarrow> ?t ! 2 = s ! 2"
        using sz by simp
      have i3: "\<not> rune_size (byte (s ! 0)) \<le> 3 \<Longrightarrow> ?t ! 3 = s ! 3"
        using sz by simp
      show ?thesis
        unfolding decode_first_def [of ?t] decode_first_def [of s] t0 len
        using t assms(1) i1 i2 i3 by (simp del: nth_take length_take)
    qed
  qed
qed


lemma decode_prefix:
  "decode s = M @ B \<Longrightarrow> decode (concat (map snd M)) = M"
proof (induction M arbitrary: s)
  case Nil
  then show ?case by simp
next
  case (Cons m M)
  let ?w = "snd (decode_first s)"
  let ?t = "concat (map snd M)"
  from Cons.prems have ne: "s \<noteq> []" by auto
  from Cons.prems have m: "m = (fst (decode_first s), take ?w s)"
    and rest: "decode (drop ?w s) = M @ B"
    by (simp_all add: decode_nonempty [OF ne])
  have w: "1 \<le> ?w" "?w \<le> length s"
    using decode_first_width [OF ne] by simp_all
  have "drop ?w s = ?t @ concat (map snd B)"
    using concat_decode [of "drop ?w s"] rest by simp
  then have "s = take ?w s @ ?t @ concat (map snd B)"
    by (metis append_take_drop_id)
  then have tk: "take (?w + length ?t) s = take ?w s @ ?t"
    using w(2) by (metis append_eq_conv_conj length_append length_take min.absorb2 append.assoc)
  have ne': "take ?w s @ ?t \<noteq> []"
    using w ne by (cases s) auto
  have first: "decode_first (take ?w s @ ?t) = decode_first s"
    using decode_first_take [OF ne, of "?w + length ?t"] tk by simp
  have "decode (take ?w s @ ?t) =
      (fst (decode_first s), take ?w (take ?w s @ ?t)) # decode (drop ?w (take ?w s @ ?t))"
    using decode_nonempty [OF ne'] first by simp
  also have "take ?w (take ?w s @ ?t) = take ?w s"
    using w(2) by simp
  also have "drop ?w (take ?w s @ ?t) = ?t"
    using w(2) by simp
  finally show ?case
    using m Cons.IH [OF rest] by simp
qed

lemma decode_suffix:
  "decode s = A @ R \<Longrightarrow> decode (concat (map snd R)) = R"
proof (induction A arbitrary: s)
  case Nil
  then show ?case using concat_decode [of s] by simp
next
  case (Cons a A)
  from Cons.prems have ne: "s \<noteq> []" by auto
  from Cons.prems have "decode (drop (snd (decode_first s)) s) = A @ R"
    by (simp add: decode_nonempty [OF ne])
  then show ?case by (rule Cons.IH)
qed

lemma decode_middle:
  assumes "decode s = A @ M @ B"
  shows "decode (concat (map snd M)) = M"
  using decode_prefix [OF decode_suffix [OF assms]] .

subsection \<open>Substrings, trimming and lower case\<close>

lemma strings_HasPrefix_prefix: "strings_HasPrefix s p \<longleftrightarrow> prefix p s"
  by (induction s p rule: strings_HasPrefix.induct) auto

lemma strings_Contains_sublist: "strings_Contains s sub \<longleftrightarrow> sublist sub s"
  by (induction s) (auto simp: strings_HasPrefix_prefix sublist_Cons_right)

lemma sublist_trimmed_runes:
  "sublist (rev (dropWhile P (rev (dropWhile P xs)))) xs"
proof -
  have "sublist (rev (dropWhile P (rev (dropWhile P xs)))) (dropWhile P xs)"
    by (simp add: sublist_rev_left)
  moreover have "sublist (dropWhile P xs) xs"
    by simp
  ultimately show ?thesis
    by (rule sublist_order.order_trans)
qed

lemma ToLower_TrimSpace_sublist:
  "sublist (strings_ToLower U (strings_TrimSpace s)) (strings_ToLower U s)"
proof -
  define M where "M = rev (dropWhile is_space_rune (rev (dropWhile is_space_rune (decode s))))"
  obtain A B where split: "decode s = A @ M @ B"
    using sublist_trimmed_runes [of is_space_rune "decode s"] by (auto simp: sublist_def M_def)
  have trim: "strings_TrimSpace s = concat (map snd M)"
    by (simp add: strings_TrimSpace_def M_def)
  have "decode (strings_TrimSpace s) = M"
    unfolding trim by (rule decode_middle [OF split])
  then have "strings_ToLower U (strings_TrimSpace s) = concat (map (lower_bytes U) M)"
    by (simp add: strings_ToLower_def)
  moreover have "strings_ToLower U s =
      concat (map (lower_bytes U) A) @ concat (map (lower_bytes U) M)
        @ concat (map (lower_bytes U) B)"
    by (simp add: strings_ToLower_def split)
  ultimately show ?thesis
    unfolding sublist_def by metis
qed

lemma Contains_ToLower_TrimSpace:
  "strings_Contains (strings_ToLower U (strings_TrimSpace s)) sub
     \<Longrightarrow> strings_Contains (strings_ToLower U s) sub"
  unfolding strings_Contains_sublist
  using ToLower_TrimSpace_sublist sublist_order.order_trans by blast

subsection \<open>ASCII bytes among other bytes\<close>

lemma accept_lo_high: "0x80 \<le> accept_lo b"
  by (simp add: accept_lo_def)

lemma decode_first_cont1: "s \<noteq> [] \<Longrightarrow> 1 < snd (decode_first s) \<Longrightarrow> 0x80 \<le> byte (s ! 1)"
  using accept_lo_high [of "byte (s ! 0)"]
  by (auto simp: decode_first_def split: if_splits)

lemma decode_first_cont2: "s \<noteq> [] \<Longrightarrow> 2 < snd (decode_first s) \<Longrightarrow> 0x80 \<le> byte (s ! 2)"
  by (auto simp: decode_first_def split: if_splits)

lemma decode_first_cont3: "s \<noteq> [] \<Longrightarrow> 3 < snd (decode_first s) \<Longrightarrow> 0x80 \<le> byte (s ! 3)"
  by (auto simp: decode_first_def split: if_splits)

lemma decode_first_cont:
  assumes "s \<noteq> []" "1 \<le> i" "i < snd (decode_first s)"
  shows "0x80 \<le> byte (s ! i)"
proof -
  have "snd (decode_first s) \<le> 4"
    using rune_size_bounds [of "byte (s ! 0)"] assms(1) by (auto simp: decode_first_def)
  then have "i = 1 \<or> i = 2 \<or> i = 3"
    using assms(2,3) by arith
  then show ?thesis
    using decode_first_cont1 [OF assms(1)] decode_first_cont2 [OF assms(1)]
      decode_first_cont3 [OF assms(1)] assms(3) by auto
qed

lemma decode_first_before_ascii:
  assumes "s1 \<noteq> []" "byte c < 0x80"
  shows "snd (decode_first (s1 @ c # s2)) \<le> length s1"
proof (rule ccontr)
  assume "\<not> snd (decode_first (s1 @ c # s2)) \<le> length s1"
  then have lt: "length s1 < snd (decode_first (s1 @ c # s2))" by simp
  have "1 \<le> length s1" using assms(1) by (cases s1) auto
  from decode_first_cont [OF _ this lt] have "0x80 \<le> byte ((s1 @ c # s2) ! length s1)"
    by simp
  then show False using assms(2) by simp
qed

lemma decode_append_ascii:
  assumes "byte c < 0x80"
  shows "decode (s1 @ c # s2) = decode s1 @ decode (c # s2)"
proof (induction s1 rule: length_induct)
  case (1 s1)
  show ?case
  proof (cases "s1 = []")
    case True
    then show ?thesis by simp
  next
    case False
    let ?s = "s1 @ c # s2"
    let ?w = "snd (decode_first ?s)"
    have w: "?w \<le> length s1"
      by (rule decode_first_before_ascii [OF False assms])
    have ne: "?s \<noteq> []" by simp
    have w1: "1 \<le> ?w" using decode_first_width [OF ne] by simp
    have "decode_first (take (length s1) ?s) = decode_first ?s"
      by (rule decode_first_take [OF ne w])
    then have same: "decode_first s1 = decode_first ?s" by simp
    have shorter: "length (drop ?w s1) < length s1"
      using w1 False by (cases s1) auto
    have "decode ?s = (fst (decode_first ?s), take ?w ?s) # decode (drop ?w ?s)"
      by (rule decode_nonempty [OF ne])
    also have "take ?w ?s = take ?w s1" using w by simp
    also have "drop ?w ?s = drop ?w s1 @ c # s2" using w by simp
    also have "decode (drop ?w s1 @ c # s2) = decode (drop ?w s1) @ decode (c # s2)"
      using 1 shorter by blast
    finally show ?thesis
      using decode_nonempty [OF False] same by simp
  qed
qed

lemma ToLower_append_ascii:
  assumes "byte c < 0x80"
  shows "strings_ToLower U (s1 @ c # s2) = strings_ToLower U s1 @ strings_ToLower U (c # s2)"
  by (simp add: strings_ToLower_def decode_append_ascii [OF assms])

lemma byte_char_of: "n < 256 \<Longrightarrow> byte (char_of n) = n"
  by (simp add: byte_def)

lemma char_of_byte: "char_of (byte c) = c"
  by (simp add: byte_def)

lemma byte_less: "byte c < 256"
  by (simp add: byte_def)

lemma decode_ascii_Cons:
  assumes "byte c < 0x80"
  shows "decode (c # s) = (byte c, [c]) # decode s"
  using decode_nonempty [of "c # s"] decode_first_ascii [of "c # s"] assms by simp

lemma ToLower_stable_prefix:
  assumes "\<forall>c \<in> set a. byte c < 0x41 \<or> (0x5A < byte c \<and> byte c < 0x80)"
  shows "strings_ToLower U (a @ post) = a @ strings_ToLower U post"
  using assms
proof (induction a)
  case Nil
  then show ?case by simp
next
  case (Cons c a)
  then have c: "byte c < 0x80" and stable: "unicode_ToLower U (byte c) = byte c"
    by (auto simp: unicode_ToLower_def)
  have "strings_ToLower U ((c # a) @ post) =
      lower_bytes U (byte c, [c]) @ strings_ToLower U (a @ post)"
    using decode_ascii_Cons [OF c, of "a @ post"] by (simp add: strings_ToLower_def)
  also have "lower_bytes U (byte c, [c]) = [c]"
    using c stable by (simp add: lower_bytes_def encode_rune_def char_of_byte)
  finally show ?case using Cons by simp
qed

subsection \<open>Searching the bytes and searching the code points\<close>

lemma encode_rune_ascii: "r < 0x80 \<Longrightarrow> encode_rune r = [char_of r]"
  by (simp add: encode_rune_def)

lemma encode_rune_high:
  assumes "\<not> r < 0x80"
  shows "encode_rune r \<noteq> [] \<and> (\<forall>c \<in> set (encode_rune r). 0x80 \<le> byte c)"
proof -
  have m: "0x80 \<le> byte (char_of (0x80 + (k mod 64)))" for k :: nat
  proof -
    have "0x80 + (k mod 64) < 256" by simp
    then show ?thesis by (simp add: byte_char_of)
  qed
  have l2: "r \<le> 0x7FF \<Longrightarrow> 0x80 \<le> byte (char_of (0xC0 + r div 64))"
  proof -
    assume "r \<le> 0x7FF"
    then have "0xC0 + r div 64 < 256" by simp
    then show ?thesis by (simp add: byte_char_of)
  qed
  have l3: "r \<le> 0xFFFF \<Longrightarrow> 0x80 \<le> byte (char_of (0xE0 + r div 4096))"
  proof -
    assume "r \<le> 0xFFFF"
    then have "0xE0 + r div 4096 < 256" by simp
    then show ?thesis by (simp add: byte_char_of)
  qed
  have l4: "\<not> 0x10FFFF < r \<Longrightarrow> 0x80 \<le> byte (char_of (0xF0 + r div 262144))"
  proof -
    assume "\<not> 0x10FFFF < r"
    then have "0xF0 + r div 262144 < 256" by simp
    then show ?thesis by (simp add: byte_char_of)
  qed
  have fixed: "0x80 \<le> byte (CHR 0xEF)" "0x80 \<le> byte (CHR 0xBF)" "0x80 \<le> byte (CHR 0xBD)"
    by (simp_all add: byte_def)
  show ?thesis
    using assms m l2 l3 l4 fixed by (auto simp: encode_rune_def)
qed

lemma prefix_encoded:
  assumes "\<forall>c \<in> set p. byte c < 0x80"
  shows "prefix p (concat (map encode_rune L)) \<longleftrightarrow> prefix (map byte p) L"
  using assms
proof (induction L arbitrary: p)
  case Nil
  then show ?case by simp
next
  case (Cons l L)
  show ?case
  proof (cases p)
    case Nil
    then show ?thesis by simp
  next
    case (Cons c p')
    with Cons.prems have c: "byte c < 0x80" and p': "\<forall>c \<in> set p'. byte c < 0x80"
      by simp_all
    show ?thesis
    proof (cases "l < 0x80")
      case True
      have "c = char_of l \<longleftrightarrow> byte c = l"
        using True byte_char_of [of l] char_of_byte [of c] by auto
      then show ?thesis
        using Cons.IH [OF p'] True \<open>p = c # p'\<close> by (simp add: encode_rune_ascii)
    next
      case False
      from encode_rune_high [OF False] obtain h hs where
        enc: "encode_rune l = h # hs" and h: "0x80 \<le> byte h"
        by (cases "encode_rune l") auto
      have "c \<noteq> h" using c h by auto
      moreover have "byte c \<noteq> l" using c False by simp
      ultimately show ?thesis
        using \<open>p = c # p'\<close> enc by simp
    qed
  qed
qed

lemma sublist_skip_high:
  assumes "\<forall>c \<in> set hs. 0x80 \<le> byte c" "byte c < 0x80"
  shows "sublist (c # p) (hs @ t) \<longleftrightarrow> sublist (c # p) t"
  using assms(1)
proof (induction hs)
  case Nil
  then show ?case by simp
next
  case (Cons h hs)
  then have "c \<noteq> h" using assms(2) by auto
  then show ?case
    using Cons by (simp add: sublist_Cons_right)
qed

lemma sublist_encoded:
  assumes "\<forall>c \<in> set p. byte c < 0x80"
  shows "sublist p (concat (map encode_rune L)) \<longleftrightarrow> sublist (map byte p) L"
proof (cases p)
  case Nil
  then show ?thesis by simp
next
  case (Cons c p')
  with assms have c: "byte c < 0x80" by simp
  show ?thesis
  proof (induction L)
    case Nil
    then show ?case using Cons by simp
  next
    case (Cons l L)
    show ?case
    proof (cases "l < 0x80")
      case True
      have "sublist p (char_of l # concat (map encode_rune L)) \<longleftrightarrow>
          prefix p (concat (map encode_rune (l # L))) \<or> sublist p (concat (map encode_rune L))"
        using True by (simp add: sublist_Cons_right encode_rune_ascii)
      then show ?thesis
        using Cons.IH prefix_encoded [OF assms, of "l # L"] True
        by (simp add: sublist_Cons_right encode_rune_ascii)
    next
      case False
      have "byte c \<noteq> l" using c False by simp
      then have np: "\<not> prefix (map byte p) (l # L)"
        using \<open>p = c # p'\<close> by simp
      have "sublist p (encode_rune l @ concat (map encode_rune L)) \<longleftrightarrow>
          sublist p (concat (map encode_rune L))"
        using sublist_skip_high [of "encode_rune l" c p'] encode_rune_high [OF False] c
          \<open>p = c # p'\<close> by simp
      then show ?thesis
        using Cons.IH np by (simp add: sublist_Cons_right)
    qed
  qed
qed

lemma Contains_ToLower_runes:
  assumes "\<forall>c \<in> set pattern. byte c < 0x80"
  shows "strings_Contains (strings_ToLower U message) pattern \<longleftrightarrow>
           contains_ignoring_case U message pattern"
proof -
  have "strings_ToLower U message = concat (map encode_rune (fold_runes U message))"
    by (simp add: strings_ToLower_def fold_runes_def lower_bytes_def [abs_def] comp_def)
  then show ?thesis
    using sublist_encoded [OF assms, of "fold_runes U message"]
    by (simp add: strings_Contains_sublist contains_ignoring_case_def)
qed

section \<open>Properties of response extraction\<close>

lemma split_from_nonempty: "split_from s cur \<noteq> []"
  by (induction s arbitrary: cur) auto

lemma strings_Split_nl_nonempty: "strings_Split_nl text \<noteq> []"
  by (simp add: strings_Split_nl_def split_from_nonempty)

lemma scan_line_in_range: "scan_line l = Some s \<Longrightarrow> score_in_range s"
  by (induction l rule: scan_line.induct) (auto simp: Let_def split: if_splits)

lemma scan_lines_in_range: "score_in_range (scan_lines U ls)"
  by (induction ls) (auto simp: score_in_range_def dest: scan_line_in_range split: option.splits)

text \<open>
  C7. For every input text, the risk score that \<^verbatim>\<open>parseRiskScore\<close> returns lies in the
  range 0..100 inclusive, read as the signed 64-bit integer the function returns.
\<close>

theorem parseRiskScore_range:
  "0 \<le> sint (parseRiskScore U text) \<and> sint (parseRiskScore U text) \<le> 100"
  using scan_lines_in_range [of U "strings_Split_nl text"]
  by (simp add: parseRiskScore_def score_in_range_def)

theorem parseRiskScore_range_witness:
  "0 \<le> sint (parseRiskScore sample_case_table ''Risk Score: 87/100'') \<and>
   sint (parseRiskScore sample_case_table ''Risk Score: 87/100'') \<le> 100 \<and>
   parseRiskScore sample_case_table ''Risk Score: 87/100'' = 87"
proof -
  have ev: "parseRiskScore sample_case_table ''Risk Score: 87/100'' = 87"
    by code_simp
  from parseRiskScore_range [of sample_case_table "''Risk Score: 87/100''"]
  show ?thesis using ev by simp
qed

subsection \<open>Critical issues\<close>

lemma critical_loop_clean:
  "\<forall>e \<in> set issues. \<not> strings_Contains (strings_ToLower U e) ''critical''
   \<Longrightarrow> \<forall>e \<in> set (critical_loop U inCritical issues ls).
         \<not> strings_Contains (strings_ToLower U e) ''critical''"
proof (induction ls arbitrary: inCritical issues)
  case Nil
  then show ?case by simp
next
  case (Cons line rest)
  show ?case
  proof (cases "strings_Contains (strings_ToLower U line) ''critical''")
    case True
    then show ?thesis using Cons.IH [OF Cons.prems] by simp
  next
    case False
    then have trim: "\<not> strings_Contains (strings_ToLower U (strings_TrimSpace line)) ''critical''"
      using Contains_ToLower_TrimSpace by blast
    have ext: "\<forall>e \<in> set (issues @ [strings_TrimSpace line]).
        \<not> strings_Contains (strings_ToLower U e) ''critical''"
      using Cons.prems trim by simp
    show ?thesis
      using False Cons.IH [OF Cons.prems] Cons.IH [OF ext] Cons.prems ext
      by (simp add: Let_def)
  qed
qed

text \<open>
  C10. For every input text, no element of the list \<^verbatim>\<open>parseCriticalIssues\<close> returns
  contains "critical" in any letter case: a line that contains it, bulleted or not,
  restarts the section (\<^verbatim>\<open>continue\<close>) and is never collected. Letter case is that of
  \<^verbatim>\<open>strings.ToLower\<close>, for every case table.
\<close>

theorem parseCriticalIssues_never_critical:
  "\<forall>issue \<in> set (parseCriticalIssues U text).
     \<not> strings_Contains (strings_ToLower U issue) ''critical''"
  unfolding parseCriticalIssues_def by (rule critical_loop_clean) simp

theorem parseCriticalIssues_never_critical_witness:
  "parseCriticalIssues sample_case_table sample_response =
     [''- SQL injection in /login'', ''* weak TLS ciphers'']
   \<and> \<not> strings_Contains (strings_ToLower sample_case_table ''- SQL injection in /login'')
         ''critical''
   \<and> \<not> strings_Contains (strings_ToLower sample_case_table ''* weak TLS ciphers'')
         ''critical''"
proof -
  have ev: "parseCriticalIssues sample_case_table sample_response =
      [''- SQL injection in /login'', ''* weak TLS ciphers'']"
    by code_simp
  from parseCriticalIssues_never_critical [of sample_case_table sample_response]
  show ?thesis unfolding ev by simp
qed

section \<open>Properties of the retry policy\<close>

lemma matches_any_iff: "matches_any m ps \<longleftrightarrow> (\<exists>p \<in> set ps. strings_Contains m p)"
  by (induction ps) auto


lemma rate_limit_message_bytes:
  "errors_Is err ErrRateLimitExceeded
     \<Longrightarrow> \<exists>pre post. err_Error err = pre @ ''rate limit exceeded'' @ post"
proof (induction err)
  case ErrEmptyResponse
  then show ?case by simp
next
  case ErrRateLimitExceeded
  have "err_Error ErrRateLimitExceeded = [] @ ''rate limit exceeded'' @ []" by simp
  then show ?case by blast
next
  case (ErrOpaque m)
  then show ?case by simp
next
  case (ErrWrap pre e post)
  then obtain a b where "err_Error e = a @ ''rate limit exceeded'' @ b" by auto
  then have "err_Error (ErrWrap pre e post) = (pre @ a) @ ''rate limit exceeded'' @ (b @ post)"
    by simp
  then show ?case by blast
qed

lemma rate_limit_message:
  assumes "errors_Is err ErrRateLimitExceeded"
  shows "strings_Contains (strings_ToLower U (err_Error err)) ''rate limit''"
proof -
  obtain pre post where msg: "err_Error err = pre @ ''rate limit exceeded'' @ post"
    using rate_limit_message_bytes [OF assms] by blast
  have r: "byte CHR ''r'' < 0x80"
    by (simp add: byte_def)
  have stable: "\<forall>c \<in> set ''rate limit exceeded''. byte c < 0x41 \<or> (0x5A < byte c \<and> byte c < 0x80)"
    by (simp add: byte_def)
  have "strings_ToLower U (pre @ ''rate limit exceeded'' @ post) =
      strings_ToLower U pre @ strings_ToLower U (''rate limit exceeded'' @ post)"
    using ToLower_append_ascii [OF r, of U pre "''ate limit exceeded'' @ post"] by simp
  also have "strings_ToLower U (''rate limit exceeded'' @ post) =
      ''rate limit exceeded'' @ strings_ToLower U post"
    by (rule ToLower_stable_prefix [OF stable])
  finally have "strings_ToLower U (err_Error err) =
      strings_ToLower U pre @ ''rate limit'' @ ('' exceeded'' @ strings_ToLower U post)"
    by (simp add: msg)
  then show ?thesis
    unfolding strings_Contains_sublist sublist_def by blast
qed

lemma isRetryableError_iff:
  "isRetryableError U (Some err) \<longleftrightarrow>
     (strings_Contains (strings_ToLower U (err_Error err)) ''rate limit'' \<or>
      strings_Contains (strings_ToLower U (err_Error err)) ''429'' \<or>
      strings_Contains (strings_ToLower U (err_Error err)) ''timeout'' \<or>
      strings_Contains (strings_ToLower U (err_Error err)) ''temporary'' \<or>
      strings_Contains (strings_ToLower U (err_Error err)) ''connection'' \<or>
      strings_Contains (strings_ToLower U (err_Error err)) ''deadline exceeded'') \<or>
     errors_Is err ErrEmptyResponse"
  using rate_limit_message [of err U]
  by (auto simp: matches_any_iff retryablePatterns_def)

lemma isRetryableError_runes:
  "isRetryableError U (Some err) \<longleftrightarrow>
     (contains_ignoring_case U (err_Error err) ''rate limit'' \<or>
      contains_ignoring_case U (err_Error err) ''429'' \<or>
      contains_ignoring_case U (err_Error err) ''timeout'' \<or>
      contains_ignoring_case U (err_Error err) ''temporary'' \<or>
      contains_ignoring_case U (err_Error err) ''connection'' \<or>
      contains_ignoring_case U (err_Error err) ''deadline exceeded'') \<or>
     errors_Is err ErrEmptyResponse"
proof -
  have ascii: "\<forall>c \<in> set pattern. byte c < 0x80"
    if "pattern \<in> set retryablePatterns" for pattern
    using that by (auto simp: retryablePatterns_def byte_def)
  have eq: "strings_Contains (strings_ToLower U (err_Error err)) pattern \<longleftrightarrow>
      contains_ignoring_case U (err_Error err) pattern"
    if "pattern \<in> set retryablePatterns" for pattern
    by (rule Contains_ToLower_runes [OF ascii [OF that]])
  show ?thesis
    unfolding isRetryableError_iff
    using eq by (simp add: retryablePatterns_def)
qed

lemma retry_loop_fatal:
  "attempt < maxRetryAttempts \<Longrightarrow> ctx_done env attempt = None
   \<Longrightarrow> attempt_fn env attempt = Inl err \<Longrightarrow> \<not> isRetryableError U (Some err)
   \<Longrightarrow> retry_loop U env attempt lastErr trace = (Inl err, trace @ [Attempt attempt])"
  by (subst retry_loop.simps) simp








text \<open>
  C2. An error is classified retryable exactly when its message contains one of
  "rate limit", "429", "timeout", "temporary", "connection", "deadline exceeded" without
  regard to letter case, or it is the empty-response sentinel (by \<^verbatim>\<open>errors.Is\<close>);
  every other error is fatal. It is stated twice: on the bytes, as the code searches the
  lower-cased message, and on the code points (\<open>contains_ignoring_case\<close>), as the
  specification words it. On a fatal classification the loop returns that error at once: the attempt
  that produced it is the last event, with no notice, sleep or further attempt. (The
  second sentinel the code tests, \<^verbatim>\<open>errRateLimitExceeded\<close>, has a message that contains
  "rate limit", lemma \<open>rate_limit_message\<close>.)
\<close>

theorem isRetryableError_classification:
  "(isRetryableError U (Some err) \<longleftrightarrow>
      (strings_Contains (strings_ToLower U (err_Error err)) ''rate limit'' \<or>
       strings_Contains (strings_ToLower U (err_Error err)) ''429'' \<or>
       strings_Contains (strings_ToLower U (err_Error err)) ''timeout'' \<or>
       strings_Contains (strings_ToLower U (err_Error err)) ''temporary'' \<or>
       strings_Contains (strings_ToLower U (err_Error err)) ''connection'' \<or>
       strings_Contains (strings_ToLower U (err_Error err)) ''deadline exceeded'') \<or>
      errors_Is err ErrEmptyResponse) \<and>
   (isRetryableError U (Some err) \<longleftrightarrow>
      (contains_ignoring_case U (err_Error err) ''rate limit'' \<or>
       contains_ignoring_case U (err_Error err) ''429'' \<or>
       contains_ignoring_case U (err_Error err) ''timeout'' \<or>
       contains_ignoring_case U (err_Error err) ''temporary'' \<or>
       contains_ignoring_case U (err_Error err) ''connection'' \<or>
       contains_ignoring_case U (err_Error err) ''deadline exceeded'') \<or>
      errors_Is err ErrEmptyResponse) \<and>
   (attempt < maxRetryAttempts \<and> ctx_done env attempt = None \<and>
    attempt_fn env attempt = Inl err \<and> \<not> isRetryableError U (Some err)
      \<longrightarrow> retry_loop U env attempt lastErr trace = (Inl err, trace @ [Attempt attempt]))"
proof (intro conjI impI)
  show "isRetryableError U (Some err) \<longleftrightarrow>
      (strings_Contains (strings_ToLower U (err_Error err)) ''rate limit'' \<or>
       strings_Contains (strings_ToLower U (err_Error err)) ''429'' \<or>
       strings_Contains (strings_ToLower U (err_Error err)) ''timeout'' \<or>
       strings_Contains (strings_ToLower U (err_Error err)) ''temporary'' \<or>
       strings_Contains (strings_ToLower U (err_Error err)) ''connection'' \<or>
       strings_Contains (strings_ToLower U (err_Error err)) ''deadline exceeded'') \<or>
      errors_Is err ErrEmptyResponse"
    by (rule isRetryableError_iff)
next
  show "isRetryableError U (Some err) \<longleftrightarrow>
      (contains_ignoring_case U (err_Error err) ''rate limit'' \<or>
       contains_ignoring_case U (err_Error err) ''429'' \<or>
       contains_ignoring_case U (err_Error err) ''timeout'' \<or>
       contains_ignoring_case U (err_Error err) ''temporary'' \<or>
       contains_ignoring_case U (err_Error err) ''connection'' \<or>
       contains_ignoring_case U (err_Error err) ''deadline exceeded'') \<or>
      errors_Is err ErrEmptyResponse"
    by (rule isRetryableError_runes)
next
  assume "attempt < maxRetryAttempts \<and> ctx_done env attempt = None \<and>
    attempt_fn env attempt = Inl err \<and> \<not> isRetryableError U (Some err)"
  then show "retry_loop U env attempt lastErr trace = (Inl err, trace @ [Attempt attempt])"
    using retry_loop_fatal by blast
qed

theorem isRetryableError_classification_witness:
  "isRetryableError sample_case_table (Some err_http_429) \<and>
   isRetryableError sample_case_table (Some (ErrOpaque ''Connection Reset By Peer'')) \<and>
   isRetryableError sample_case_table (Some err_dotted_timeout) \<and>
   isRetryableError sample_case_table (Some err_wrapped_empty) \<and>
   \<not> strings_Contains (strings_ToLower sample_case_table (err_Error err_wrapped_empty))
       ''connection'' \<and>
   \<not> isRetryableError sample_case_table (Some (ErrOpaque ''invalid API key'')) \<and>
   retryWithBackoff sample_case_table fatal_env =
     (Inl (ErrOpaque ''invalid API key''), [Attempt 0])"
proof -
  note cls = isRetryableError_classification [where U = sample_case_table and attempt = 0
      and env = fatal_env and lastErr = None and trace = "[]"]
  have c1: "strings_Contains (strings_ToLower sample_case_table (err_Error err_http_429)) ''429''"
    by code_simp
  have c2: "strings_Contains
      (strings_ToLower sample_case_table (err_Error (ErrOpaque ''Connection Reset By Peer'')))
      ''connection''"
    by code_simp
  have c3: "contains_ignoring_case sample_case_table (err_Error err_dotted_timeout) ''timeout''"
    by code_simp
  have c4: "errors_Is err_wrapped_empty ErrEmptyResponse"
    by code_simp
  have c5: "\<not> strings_Contains (strings_ToLower sample_case_table (err_Error err_wrapped_empty))
       ''connection''"
    by code_simp
  have n: "\<not> matches_any (strings_ToLower sample_case_table ''invalid API key'') retryablePatterns"
    by code_simp
  have r1: "isRetryableError sample_case_table (Some err_http_429)"
    using cls [where err = err_http_429] c1 by blast
  have r2: "isRetryableError sample_case_table (Some (ErrOpaque ''Connection Reset By Peer''))"
    using cls [where err = "ErrOpaque ''Connection Reset By Peer''"] c2 by blast
  have r3: "isRetryableError sample_case_table (Some err_dotted_timeout)"
    using cls [where err = err_dotted_timeout] c3 by blast
  have r4: "isRetryableError sample_case_table (Some err_wrapped_empty)"
    using cls [where err = err_wrapped_empty] c4 by blast
  have fatal: "\<not> isRetryableError sample_case_table (Some (ErrOpaque ''invalid API key''))"
    using cls [where err = "ErrOpaque ''invalid API key''"] n
    by (simp add: matches_any_iff retryablePatterns_def del: isRetryableError.simps)
  have "retry_loop sample_case_table fatal_env 0 None [] =
      (Inl (ErrOpaque ''invalid API key''), [] @ [Attempt 0])"
    using cls [where err = "ErrOpaque ''invalid API key''"] fatal
    by (simp add: fatal_env_def maxRetryAttempts_def del: isRetryableError.simps)
  then show ?thesis
    using r1 r2 r3 r4 c5 fatal by (simp add: retryWithBackoff_def del: isRetryableError.simps)
qed



section \<open>Properties of the usage tracker\<close>

lemma usages_foldl_RecordUsage: "usages (foldl RecordUsage t rs) = usages t @ rs"
  by (induction rs arbitrary: t) (simp_all add: RecordUsage_def)

lemma summary_step_TotalOperations:
  "TotalOperations (summary_step ops s u) = TotalOperations s + 1"
  by (simp add: summary_step_def Let_def)

lemma summary_step_SuccessfulOperations:
  "SuccessfulOperations (summary_step ops s u) =
     SuccessfulOperations s + (if Success u then 1 else 0)"
  by (simp add: summary_step_def Let_def)

lemma summary_step_TotalCost:
  "TotalCost (summary_step ops s u) = f_add ops (TotalCost s) (CalculateCost ops u)"
  by (simp add: summary_step_def Let_def)

lemma loop_TotalOperations:
  "TotalOperations (summary_loop_over ops s rs) = TotalOperations s + int (length rs)"
  by (induction rs arbitrary: s) (simp_all add: summary_step_TotalOperations)

lemma loop_SuccessfulOperations:
  "SuccessfulOperations (summary_loop_over ops s rs) =
     SuccessfulOperations s + int (length (filter Success rs))"
  by (induction rs arbitrary: s) (simp_all add: summary_step_SuccessfulOperations)

lemma loop_TotalCost:
  "TotalCost (summary_loop_over ops s rs) =
     foldl (f_add ops) (TotalCost s) (map (CalculateCost ops) rs)"
  by (induction rs arbitrary: s) (simp_all add: summary_step_TotalCost)

text \<open>
  C5. After recording the records \<open>rs\<close> into a fresh tracker, the summary's
  \<^verbatim>\<open>TotalOperations\<close> is their number, \<^verbatim>\<open>SuccessfulOperations\<close> the number of those
  with \<^verbatim>\<open>Success\<close>, and \<^verbatim>\<open>TotalCost\<close> the sum of their costs, added from \<^verbatim>\<open>0.0\<close> in
  the order of the records; the cost of a record is \<open>0\<close> for a model the price table
  does not list, and otherwise input tokens / 1e6 times the input rate plus output
  tokens / 1e6 times the output rate. It holds for every reading \<open>ops\<close> of the
  \<^verbatim>\<open>float64\<close> operations.
\<close>

theorem GetSummary_totals:
  "TotalOperations (GetSummary ops (foldl RecordUsage NewUsageTracker rs)) = int (length rs) \<and>
   SuccessfulOperations (GetSummary ops (foldl RecordUsage NewUsageTracker rs)) =
     int (length (filter Success rs)) \<and>
   TotalCost (GetSummary ops (foldl RecordUsage NewUsageTracker rs)) =
     float_sum ops (map (CalculateCost ops) rs) \<and>
   CalculateCost ops u =
     (case modelPricing ops (Model u) of
        None \<Rightarrow> f_lit ops 0
      | Some pricing \<Rightarrow>
          f_add ops
            (f_mul ops (f_div ops (f_of_int64 ops (InputTokens u)) (f_lit ops 1000000))
               (InputCostPerMToken pricing))
            (f_mul ops (f_div ops (f_of_int64 ops (OutputTokens u)) (f_lit ops 1000000))
               (OutputCostPerMToken pricing)))"
proof -
  have u: "usages (foldl RecordUsage NewUsageTracker rs) = rs"
    by (simp add: usages_foldl_RecordUsage NewUsageTracker_def)
  show ?thesis
    by (simp add: GetSummary_def u loop_TotalOperations loop_SuccessfulOperations
        loop_TotalCost empty_summary_def float_sum_def CalculateCost_def Let_def
        split: option.splits)
qed

theorem GetSummary_totals_witness:
  "TotalOperations (GetSummary exact_ops (foldl RecordUsage NewUsageTracker sample_usages)) = 3 \<and>
   SuccessfulOperations (GetSummary exact_ops (foldl RecordUsage NewUsageTracker sample_usages)) = 2 \<and>
   TotalCost (GetSummary exact_ops (foldl RecordUsage NewUsageTracker sample_usages)) = 534 / 5"
proof -
  have costs: "map (CalculateCost exact_ops) sample_usages = [105, 0, 9 / 5]"
    by (simp add: sample_usages_def CalculateCost_def modelPricing_def exact_ops_def Let_def)
  have sum: "float_sum exact_ops [105, 0, 9 / 5] = 534 / 5"
    by (simp add: float_sum_def exact_ops_def)
  have n: "length sample_usages = 3" "length (filter Success sample_usages) = 2"
    by (simp_all add: sample_usages_def)
  from GetSummary_totals [of exact_ops sample_usages]
  show ?thesis
    by (simp add: costs sum n)
qed

section \<open>Properties of the permission manager\<close>

lemma CheckSudoAvailable_userApproved:
  "userApproved (snd (CheckSudoAvailable pm w)) = userApproved pm"
  by (simp add: CheckSudoAvailable_def)

lemma RequestRootPermission_records:
  assumes "RequestRootPermission U pm w tool purpose command = ((True, None), pm', w')"
  shows "userApproved pm' (cacheKey tool command) = Some True"
proof (cases "userApproved pm (cacheKey tool command)")
  case (Some approved)
  with assms show ?thesis
    by (simp add: RequestRootPermission_def)
next
  case None
  obtain available pm1 where chk: "CheckSudoAvailable pm (print_request w tool purpose command) = (available, pm1)"
    by (cases "CheckSudoAvailable pm (print_request w tool purpose command)")
  obtain rd w3 where rd: "ReadString_nl (print_question (print_request w tool purpose command)) = (rd, w3)"
    by (cases "ReadString_nl (print_question (print_request w tool purpose command))")
  from assms None chk rd show ?thesis
    by (auto simp: RequestRootPermission_def Let_def split: if_splits sum.splits)
qed

lemma RequestRootPermission_cached:
  assumes "userApproved pm (cacheKey tool command) = Some approved"
  shows "RequestRootPermission U pm w tool purpose command = ((approved, None), pm, w)"
  using assms by (simp add: RequestRootPermission_def)

text \<open>
  C8. When a call of \<^verbatim>\<open>RequestRootPermission\<close> for a tool and command returned
  approved, a second call with the same tool and command, in any world and with any
  purpose, returns approved again and leaves the manager and the world as they are:
  nothing is printed and nothing is read, so the user is not prompted.
\<close>

theorem RequestRootPermission_idempotent:
  assumes "RequestRootPermission U pm w tool purpose command = ((True, None), pm', w')"
  shows "RequestRootPermission U pm' w2 tool purpose2 command = ((True, None), pm', w2)"
  using RequestRootPermission_records [OF assms] by (rule RequestRootPermission_cached)

theorem RequestRootPermission_idempotent_witness:
  "fst after_yes = (True, None) \<and>
   RequestRootPermission sample_case_table (fst (snd after_yes)) (snd (snd after_yes))
       ''nmap'' ''SYN scan'' ''sudo nmap -sS example.com''
     = ((True, None), fst (snd after_yes), snd (snd after_yes))"
proof -
  have ev: "fst after_yes = (True, None)"
    by code_simp
  then have first: "RequestRootPermission sample_case_table NewPermissionManager yes_world
      ''nmap'' ''SYN scan'' ''sudo nmap -sS example.com''
        = ((True, None), fst (snd after_yes), snd (snd after_yes))"
    unfolding after_yes_def by (metis prod.collapse)
  from RequestRootPermission_idempotent [OF first] ev
  show ?thesis by simp
qed

text \<open>
  C1 (the code at a failing input). The user answers "always" to a request for nmap: the
  call is approved and the wildcard key \<^verbatim>\<open>nmap:*\<close> is stored. The next request for nmap
  with another command finds no entry under its own key, the only key the lookup reads:
  it prints the request again (nine more print calls), reads the next line of input, and
  returns the answer given there, a denial.
\<close>

theorem RequestRootPermission_always_not_consulted:
  "fst after_always = (True, None) \<and>
   userApproved (fst (snd after_always)) ''nmap:*'' = Some True \<and>
   userApproved (fst (snd after_always)) ''nmap:sudo nmap -O example.com'' = None \<and>
   fst after_always_other = (False, None) \<and>
   length (stdout (snd (snd after_always))) = 9 \<and>
   length (stdout (snd (snd after_always_other))) = 18 \<and>
   stdin_reads (snd (snd after_always)) = [Inr (''no'' @ [CHR 0x0A])] \<and>
   stdin_reads (snd (snd after_always_other)) = []"
  by code_simp

section \<open>The risk score at particular inputs\<close>

text \<open>
  C4 (the code at failing inputs). After the out-of-range run 175 the scan does not move
  past the run or to the next line: it goes on at the next byte and reads 75 from inside
  the same run. A run that starts at the last byte of the line is never read, since
  the scan stops at \<^verbatim>\<open>len(line)-1\<close>: the score 7 is lost and the default 50 returned.
  For "Risk Score: 150" the result 50 is the suffix of the run, not the default.
\<close>

theorem parseRiskScore_rescans_run:
  "parseRiskScore sample_case_table ''Risk Score: 175'' = 75 \<and>
   parseRiskScore sample_case_table ''Risk Score: 7'' = 50 \<and>
   scan_line ''Risk Score: 150'' = Some 50 \<and>
   parseRiskScore sample_case_table (''Risk Score: 175'' @ [CHR 0x0A] @ ''Risk Score: 20/100'') = 75"
  by code_simp

section \<open>Properties of the deep analysis\<close>

lemma AnalyzeWithAgent_fst [simp]:
  "fst (AnalyzeWithAgent m env t p progress plog) = stage_outcome m env t p"
  by (simp add: stage_outcome_def AnalyzeWithAgent_def Let_def split: option.splits sum.splits)

lemma AnalyzeWithAgent_agents [simp]:
  "agents (fst (snd (AnalyzeWithAgent m env t p progress plog))) = agents m"
  by (simp add: AnalyzeWithAgent_def Let_def split: option.splits sum.splits)

lemma stage_outcome_agents:
  "agents m' = agents m \<Longrightarrow> stage_outcome m' env t p = stage_outcome m env t p"
  by (simp add: stage_outcome_def AnalyzeWithAgent_def Let_def split: option.splits sum.splits)

lemma stage_outcome_after [simp]:
  "stage_outcome (fst (snd (AnalyzeWithAgent m env t p progress plog))) env t' p' =
     stage_outcome m env t' p'"
  by (rule stage_outcome_agents) simp

lemma AnalyzeWithAgent_silent [simp]:
  "snd (snd (AnalyzeWithAgent m env t p False plog)) = plog"
  by (simp add: AnalyzeWithAgent_def Let_def report_def split: option.splits sum.splits)

lemma Contains_placeholder:
  "strings_Contains (combine_stages recon vuln exploit_placeholder)
     ''Exploitation analysis not available.''"
  unfolding strings_Contains_sublist combine_stages_def exploit_placeholder_def sublist_def
  by (metis append.assoc append_Nil2)

lemma deep_recon_fails:
  assumes "stage_outcome m env AgentTypeRecon (buildReconPrompt result) = Inl e"
  shows "fst (runDeepAnalysis U m env result progress plog now) =
           Inl (ErrWrap ''recon stage failed: '' e [])"
  using assms by (simp add: runDeepAnalysis_def Let_def split_beta)

lemma deep_vuln_fails:
  assumes "stage_outcome m env AgentTypeRecon (buildReconPrompt result) = Inr recon"
    and "stage_outcome m env AgentTypeVulnerability (buildVulnPrompt result recon) = Inl e"
  shows "fst (runDeepAnalysis U m env result progress plog now) =
           Inl (ErrWrap ''vulnerability stage failed: '' e [])"
  using assms by (simp add: runDeepAnalysis_def Let_def split_beta)

lemma deep_exploit_fails:
  assumes "stage_outcome m env AgentTypeRecon (buildReconPrompt result) = Inr recon"
    and "stage_outcome m env AgentTypeVulnerability (buildVulnPrompt result recon) = Inr vuln"
    and "stage_outcome m env AgentTypeExploitation (buildExploitPrompt result recon vuln) = Inl e"
  shows "fst (runDeepAnalysis U m env result progress plog now) =
           Inr (parseAnalysisResponse U (combine_stages recon vuln exploit_placeholder)
                  (sr_ID result) now)"
    and "progress \<Longrightarrow> \<exists>earlier. snd (snd (runDeepAnalysis U m env result progress plog now)) =
           earlier @ [exploit_warning e]"
    and "\<not> progress \<Longrightarrow> snd (snd (runDeepAnalysis U m env result progress plog now)) = plog"
  using assms by (simp_all add: runDeepAnalysis_def Let_def split_beta report_def)


text \<open>
  C6, as amended. In \<^verbatim>\<open>runDeepAnalysis\<close> a failure of the first stage or of the second
  aborts the analysis with an error that wraps the stage's error. A failure of the third
  stage does not: the call returns the analysis parsed from the combined text in which
  the fixed placeholder stands for the third stage's text, so that the summary comes from
  the text of the first two stages and the placeholder; and when a progress callback is
  supplied, the last message it receives is the warning with the stage's error. With a
  \<^verbatim>\<open>nil\<close> callback no message is passed.
\<close>

theorem runDeepAnalysis_stage_failures:
  "(stage_outcome m env AgentTypeRecon (buildReconPrompt result) = Inl e1 \<longrightarrow>
      fst (runDeepAnalysis U m env result progress plog now) =
        Inl (ErrWrap ''recon stage failed: '' e1 [])) \<and>
   (stage_outcome m env AgentTypeRecon (buildReconPrompt result) = Inr recon \<and>
    stage_outcome m env AgentTypeVulnerability (buildVulnPrompt result recon) = Inl e2 \<longrightarrow>
      fst (runDeepAnalysis U m env result progress plog now) =
        Inl (ErrWrap ''vulnerability stage failed: '' e2 [])) \<and>
   (stage_outcome m env AgentTypeRecon (buildReconPrompt result) = Inr recon \<and>
    stage_outcome m env AgentTypeVulnerability (buildVulnPrompt result recon) = Inr vuln \<and>
    stage_outcome m env AgentTypeExploitation (buildExploitPrompt result recon vuln) = Inl e3 \<longrightarrow>
      fst (runDeepAnalysis U m env result progress plog now) =
        Inr (parseAnalysisResponse U (combine_stages recon vuln exploit_placeholder)
               (sr_ID result) now) \<and>
      Summary (parseAnalysisResponse U (combine_stages recon vuln exploit_placeholder)
               (sr_ID result) now) =
        parseAnalysisSummary U (combine_stages recon vuln exploit_placeholder) \<and>
      strings_Contains (combine_stages recon vuln exploit_placeholder)
        ''Exploitation analysis not available.'' \<and>
      (progress \<longrightarrow>
         (\<exists>earlier. snd (snd (runDeepAnalysis U m env result progress plog now)) =
            earlier @ [exploit_warning e3])) \<and>
      (\<not> progress \<longrightarrow> snd (snd (runDeepAnalysis U m env result progress plog now)) = plog))"
proof (intro conjI impI)
  assume "stage_outcome m env AgentTypeRecon (buildReconPrompt result) = Inl e1"
  then show "fst (runDeepAnalysis U m env result progress plog now) =
      Inl (ErrWrap ''recon stage failed: '' e1 [])"
    by (rule deep_recon_fails)
next
  assume "stage_outcome m env AgentTypeRecon (buildReconPrompt result) = Inr recon \<and>
    stage_outcome m env AgentTypeVulnerability (buildVulnPrompt result recon) = Inl e2"
  then show "fst (runDeepAnalysis U m env result progress plog now) =
      Inl (ErrWrap ''vulnerability stage failed: '' e2 [])"
    using deep_vuln_fails by blast
next
  assume h: "stage_outcome m env AgentTypeRecon (buildReconPrompt result) = Inr recon \<and>
    stage_outcome m env AgentTypeVulnerability (buildVulnPrompt result recon) = Inr vuln \<and>
    stage_outcome m env AgentTypeExploitation (buildExploitPrompt result recon vuln) = Inl e3"
  then show "fst (runDeepAnalysis U m env result progress plog now) =
      Inr (parseAnalysisResponse U (combine_stages recon vuln exploit_placeholder)
             (sr_ID result) now)"
    using deep_exploit_fails(1) by blast
  show "Summary (parseAnalysisResponse U (combine_stages recon vuln exploit_placeholder)
             (sr_ID result) now) =
      parseAnalysisSummary U (combine_stages recon vuln exploit_placeholder)"
    by (simp add: parseAnalysisResponse_def)
  show "strings_Contains (combine_stages recon vuln exploit_placeholder)
      ''Exploitation analysis not available.''"
    by (rule Contains_placeholder)
  {
    assume "progress"
    with h show "\<exists>earlier. snd (snd (runDeepAnalysis U m env result progress plog now)) =
        earlier @ [exploit_warning e3]"
      using deep_exploit_fails(2) by blast
  }
  {
    assume "\<not> progress"
    with h show "snd (snd (runDeepAnalysis U m env result progress plog now)) = plog"
      using deep_exploit_fails(3) by blast
  }
qed

theorem runDeepAnalysis_stage_failures_witness:
  "fst (runDeepAnalysis sample_case_table NewAgentManager (stage_env AgentTypeRecon) sample_scan True [] 0) =
     Inl (ErrWrap ''recon stage failed: ''
            (ErrWrap ''analysis failed: '' (ErrOpaque ''overloaded'') []) []) \<and>
   fst (runDeepAnalysis sample_case_table NewAgentManager (stage_env AgentTypeVulnerability) sample_scan True [] 0) =
     Inl (ErrWrap ''vulnerability stage failed: ''
            (ErrWrap ''analysis failed: '' (ErrOpaque ''overloaded'') []) []) \<and>
   fst (runDeepAnalysis sample_case_table NewAgentManager (stage_env AgentTypeExploitation) sample_scan True [] 0) =
     Inr (parseAnalysisResponse sample_case_table (combine_stages recon_text vuln_text exploit_placeholder)
            ''scan-1'' 0) \<and>
   last (snd (snd (runDeepAnalysis sample_case_table NewAgentManager (stage_env AgentTypeExploitation) sample_scan
                     True [] 0))) =
     exploit_warning (ErrWrap ''analysis failed: '' (ErrOpaque ''overloaded'') []) \<and>
   parseAnalysisSummary sample_case_table (combine_stages recon_text vuln_text exploit_placeholder) =
     ''Two serious issues.''"
proof -
  let ?err = "ErrWrap ''analysis failed: '' (ErrOpaque ''overloaded'') []"
  have r1: "stage_outcome NewAgentManager (stage_env AgentTypeRecon) AgentTypeRecon
      (buildReconPrompt sample_scan) = Inl ?err"
    by code_simp
  have v1: "stage_outcome NewAgentManager (stage_env AgentTypeVulnerability) AgentTypeRecon
      (buildReconPrompt sample_scan) = Inr recon_text"
    by code_simp
  have v2: "stage_outcome NewAgentManager (stage_env AgentTypeVulnerability)
      AgentTypeVulnerability (buildVulnPrompt sample_scan recon_text) = Inl ?err"
    by code_simp
  have x1: "stage_outcome NewAgentManager (stage_env AgentTypeExploitation) AgentTypeRecon
      (buildReconPrompt sample_scan) = Inr recon_text"
    by code_simp
  have x2: "stage_outcome NewAgentManager (stage_env AgentTypeExploitation)
      AgentTypeVulnerability (buildVulnPrompt sample_scan recon_text) = Inr vuln_text"
    by code_simp
  have x3: "stage_outcome NewAgentManager (stage_env AgentTypeExploitation)
      AgentTypeExploitation (buildExploitPrompt sample_scan recon_text vuln_text) = Inl ?err"
    by code_simp
  have sm: "parseAnalysisSummary sample_case_table (combine_stages recon_text vuln_text exploit_placeholder) =
      ''Two serious issues.''"
    by code_simp
  have id: "sr_ID sample_scan = ''scan-1''"
    by (simp add: sample_scan_def)
  from runDeepAnalysis_stage_failures [where U = sample_case_table and m = NewAgentManager
      and env = "stage_env AgentTypeRecon" and result = sample_scan and ?e1.0 = ?err
      and progress = True and plog = "[]" and now = 0] r1
  have A: "fst (runDeepAnalysis sample_case_table NewAgentManager (stage_env AgentTypeRecon) sample_scan True [] 0) =
      Inl (ErrWrap ''recon stage failed: '' ?err [])"
    by blast
  from runDeepAnalysis_stage_failures [where U = sample_case_table and m = NewAgentManager
      and env = "stage_env AgentTypeVulnerability" and result = sample_scan
      and recon = recon_text and ?e2.0 = ?err
      and progress = True and plog = "[]" and now = 0] v1 v2
  have B: "fst (runDeepAnalysis sample_case_table NewAgentManager (stage_env AgentTypeVulnerability) sample_scan
      True [] 0) = Inl (ErrWrap ''vulnerability stage failed: '' ?err [])"
    by blast
  from runDeepAnalysis_stage_failures [where U = sample_case_table and m = NewAgentManager
      and env = "stage_env AgentTypeExploitation" and result = sample_scan
      and recon = recon_text and vuln = vuln_text and ?e3.0 = ?err
      and progress = True and plog = "[]" and now = 0] x1 x2 x3
  have C: "fst (runDeepAnalysis sample_case_table NewAgentManager (stage_env AgentTypeExploitation) sample_scan
        True [] 0) =
      Inr (parseAnalysisResponse sample_case_table (combine_stages recon_text vuln_text exploit_placeholder)
             (sr_ID sample_scan) 0)"
    and D: "\<exists>earlier. snd (snd (runDeepAnalysis sample_case_table NewAgentManager (stage_env AgentTypeExploitation)
        sample_scan True [] 0)) = earlier @ [exploit_warning ?err]"
    by blast+
  from D have E: "last (snd (snd (runDeepAnalysis sample_case_table NewAgentManager
      (stage_env AgentTypeExploitation) sample_scan True [] 0))) = exploit_warning ?err"
    by auto
  show ?thesis
    using A B C E sm by (simp only: id simp_thms)
qed

text \<open>
  C6 as stated fails at a \<^verbatim>\<open>nil\<close> callback: the third stage fails, the call returns the
  analysis with a \<^verbatim>\<open>nil\<close> error, and no message reaches the caller.
\<close>

theorem runDeepAnalysis_nil_callback_counterexample:
  "stage_outcome NewAgentManager (stage_env AgentTypeExploitation) AgentTypeExploitation
     (buildExploitPrompt sample_scan recon_text vuln_text) =
       Inl (ErrWrap ''analysis failed: '' (ErrOpaque ''overloaded'') []) \<and>
   fst (runDeepAnalysis sample_case_table NewAgentManager (stage_env AgentTypeExploitation)
          sample_scan False [] 0) =
     Inr (parseAnalysisResponse sample_case_table
            (combine_stages recon_text vuln_text exploit_placeholder) ''scan-1'' 0) \<and>
   snd (snd (runDeepAnalysis sample_case_table NewAgentManager (stage_env AgentTypeExploitation)
               sample_scan False [] 0)) = []"
proof -
  have x1: "stage_outcome NewAgentManager (stage_env AgentTypeExploitation) AgentTypeRecon
      (buildReconPrompt sample_scan) = Inr recon_text"
    by code_simp
  have x2: "stage_outcome NewAgentManager (stage_env AgentTypeExploitation)
      AgentTypeVulnerability (buildVulnPrompt sample_scan recon_text) = Inr vuln_text"
    by code_simp
  have x3: "stage_outcome NewAgentManager (stage_env AgentTypeExploitation)
      AgentTypeExploitation (buildExploitPrompt sample_scan recon_text vuln_text) =
        Inl (ErrWrap ''analysis failed: '' (ErrOpaque ''overloaded'') [])"
    by code_simp
  have id: "sr_ID sample_scan = ''scan-1''"
    by (simp add: sample_scan_def)
  show ?thesis
    using deep_exploit_fails(1) [OF x1 x2 x3, of sample_case_table False "[]" 0]
      deep_exploit_fails(3) [OF x1 x2 x3, of False sample_case_table "[]" 0] x3
    by (simp only: id simp_thms)
qed

section \<open>Properties of the prompts for a scan without findings\<close>















end
